theory Spec2Isabelle
  imports Main
begin

section \<open>Text helpers of the Python runtime\<close>

text \<open>
  Strings are ASCII text. \<open>upper_str\<close>, \<open>lower_str\<close> and \<open>strip\<close> follow
  \<^verbatim>\<open>str.upper\<close>, \<^verbatim>\<open>str.lower\<close> and \<^verbatim>\<open>str.strip\<close> on that range;
  \<open>str_nat\<close> is \<^verbatim>\<open>str(n)\<close> of a non-negative integer.
\<close>

definition upper_char :: "char \<Rightarrow> char" where
  "upper_char c =
     (case map_of (zip ''abcdefghijklmnopqrstuvwxyz'' ''ABCDEFGHIJKLMNOPQRSTUVWXYZ'') c of
        Some u \<Rightarrow> u | None \<Rightarrow> c)"

definition lower_char :: "char \<Rightarrow> char" where
  "lower_char c =
     (case map_of (zip ''ABCDEFGHIJKLMNOPQRSTUVWXYZ'' ''abcdefghijklmnopqrstuvwxyz'') c of
        Some l \<Rightarrow> l | None \<Rightarrow> c)"

definition upper_str :: "string \<Rightarrow> string" where
  "upper_str s = map upper_char s"

definition lower_str :: "string \<Rightarrow> string" where
  "lower_str s = map lower_char s"

definition is_space :: "char \<Rightarrow> bool" where
  "is_space c = ((of_char c :: nat) \<in> {9, 10, 11, 12, 13, 28, 29, 30, 31, 32})"

definition strip :: "string \<Rightarrow> string" where
  "strip s = rev (dropWhile is_space (rev (dropWhile is_space s)))"

definition digit_char :: "nat \<Rightarrow> char" where
  "digit_char n = ''0123456789'' ! n"

fun str_nat :: "nat \<Rightarrow> string" where
  "str_nat n = (if n < 10 then [digit_char n] else str_nat (n div 10) @ [digit_char (n mod 10)])"

declare str_nat.simps [simp del]

definition zfill2 :: "nat \<Rightarrow> string" where
  "zfill2 n = (if n < 10 then CHR ''0'' # str_nat n else str_nat n)"

section \<open>Calendar dates and \<^verbatim>\<open>strftime('%Y-%m-%d')\<close>\<close>

text \<open>
  The index of the fetched frame holds pandas timestamps; with \<^verbatim>\<open>interval="1d"\<close> only
  their calendar date matters, and the format \<^verbatim>\<open>%Y-%m-%d\<close> reads nothing else.
  A pandas timestamp lies between the years 1677 and 2262.
\<close>

record date =
  year :: nat
  month :: nat
  day :: nat

definition leap_year :: "nat \<Rightarrow> bool" where
  "leap_year y = (y mod 4 = 0 \<and> (y mod 100 \<noteq> 0 \<or> y mod 400 = 0))"

definition days_in_month :: "nat \<Rightarrow> nat \<Rightarrow> nat" where
  "days_in_month y m =
     (if m = 2 then (if leap_year y then 29 else 28)
      else if m \<in> {4, 6, 9, 11} then 30 else 31)"

definition valid_date :: "date \<Rightarrow> bool" where
  "valid_date d =
     (1677 \<le> year d \<and> year d \<le> 2262 \<and> 1 \<le> month d \<and> month d \<le> 12 \<and>
      1 \<le> day d \<and> day d \<le> days_in_month (year d) (month d))"

text \<open>\<^verbatim>\<open>%Y\<close> is the year in decimal, \<^verbatim>\<open>%m\<close> and \<^verbatim>\<open>%d\<close> are zero-padded to two digits.\<close>

definition strftime_ymd :: "date \<Rightarrow> string" where
  "strftime_ymd d = str_nat (year d) @ ''-'' @ zfill2 (month d) @ ''-'' @ zfill2 (day d)"

section \<open>Partition paths and keys\<close>

definition LOCAL_DATA_LAKE_FOLDER :: string where
  "LOCAL_DATA_LAKE_FOLDER = ''stock_data_lake''"

text \<open>
  \<^verbatim>\<open>os.path.join\<close> on a POSIX system: a component that starts with the separator
  replaces what came before, and a separator is inserted only when the path so far is
  non-empty and does not already end with one.
\<close>

definition join2 :: "string \<Rightarrow> string \<Rightarrow> string" where
  "join2 path b =
     (if b \<noteq> [] \<and> hd b = CHR ''/'' then b
      else if path = [] \<or> last path = CHR ''/'' then path @ b
      else path @ ''/'' @ b)"

definition path_join :: "string \<Rightarrow> string list \<Rightarrow> string" where
  "path_join a p = foldl join2 a p"

text \<open>\<^verbatim>\<open>os.path.dirname\<close>: everything up to the last separator, trailing separators
  removed unless the head consists of separators only.\<close>

definition dirname :: "string \<Rightarrow> string" where
  "dirname p =
     (let head = rev (dropWhile (\<lambda>c. c \<noteq> CHR ''/'') (rev p))
      in if head \<noteq> [] \<and> \<not> list_all (\<lambda>c. c = CHR ''/'') head
         then rev (dropWhile (\<lambda>c. c = CHR ''/'') (rev head)) else head)"

text \<open>The path of \<^verbatim>\<open>save_data_locally\<close> and the object name of \<^verbatim>\<open>upload_data_to_gcs\<close>.\<close>

definition local_path :: "string \<Rightarrow> string \<Rightarrow> string" where
  "local_path ticker file_date =
     path_join LOCAL_DATA_LAKE_FOLDER [''ticker='' @ ticker, ''date='' @ file_date @ ''.csv'']"

definition gcs_key :: "string \<Rightarrow> string \<Rightarrow> string" where
  "gcs_key ticker file_date = ''ticker='' @ ticker @ ''/date='' @ file_date @ ''.csv''"

text \<open>A ticker as \<^verbatim>\<open>get_analysis_parameters\<close> hands it on: upper-cased, then trimmed.\<close>

definition normalize_ticker :: "string \<Rightarrow> string" where
  "normalize_ticker s = strip (upper_str s)"

definition valid_ticker :: "string \<Rightarrow> bool" where
  "valid_ticker t = (t \<noteq> [] \<and> normalize_ticker t = t)"

section \<open>Frames\<close>

text \<open>
  The market-data library returns a frame indexed by date whose columns are price
  fields. Depending on the library version and its \<^verbatim>\<open>multi_level_index\<close> default, the
  column index is flat (\<^verbatim>\<open>Close\<close>) or has two levels (\<^verbatim>\<open>(Close, TEST.NS)\<close>, the price
  field over a ticker label); the script runs on both. The values are kept abstract
  (type \<open>'v\<close>). \<^verbatim>\<open>DataFrame.empty\<close> holds when either axis has length zero.
\<close>

datatype field = Open | High | Low | Close | Adj_Close | Volume

datatype 'a col_index = Flat "'a list" | TwoLevel "('a \<times> string) list"

fun ncols :: "'a col_index \<Rightarrow> nat" where
  "ncols (Flat cs) = length cs"
| "ncols (TwoLevel ps) = length ps"

record 'v stock_frame =
  columns :: "field col_index"
  rows :: "(date \<times> 'v list) list"

definition empty_frame :: "'v stock_frame \<Rightarrow> bool" where
  "empty_frame sd = (rows sd = [] \<or> ncols (columns sd) = 0)"

datatype column = Index | Date | Field field | Ticker

datatype 'v cell = TS date | Num 'v | Txt string

record 'v frame =
  cols :: "column col_index"
  body :: "'v cell list list"

fun field_name :: "field \<Rightarrow> string" where
  "field_name Open = ''Open''"
| "field_name High = ''High''"
| "field_name Low = ''Low''"
| "field_name Close = ''Close''"
| "field_name Adj_Close = ''Adj Close''"
| "field_name Volume = ''Volume''"

fun col_name :: "column \<Rightarrow> string" where
  "col_name Index = ''index''"
| "col_name Date = ''Date''"
| "col_name (Field f) = field_name f"
| "col_name Ticker = ''Ticker''"

text \<open>
  \<^verbatim>\<open>reset_index()\<close> turns the index into a new first column; under a two-level column
  index its lower label is empty. The new column is named after the index: \<open>Date\<close> for
  the fetched frame, \<open>index\<close> for the one-row frame built from a row.
\<close>

fun with_index_column :: "column \<Rightarrow> field col_index \<Rightarrow> column col_index" where
  "with_index_column c (Flat fs) = Flat (c # map Field fs)"
| "with_index_column c (TwoLevel ps) = TwoLevel ((c, []) # map (\<lambda>q. (Field (fst q), snd q)) ps)"

definition reset_index :: "'v stock_frame \<Rightarrow> 'v frame" where
  "reset_index sd =
     \<lparr>cols = with_index_column Date (columns sd),
      body = map (\<lambda>(d, vs). TS d # map Num vs) (rows sd)\<rparr>"

text \<open>
  \<^verbatim>\<open>rename(columns={'index': 'Date'})\<close> renames the label \<open>index\<close> on every level, and
  \<^verbatim>\<open>df['Ticker'] = ticker\<close> appends a column (with an empty lower label under two
  levels).
\<close>

definition rename_label :: "string \<Rightarrow> string" where
  "rename_label s = (if s = ''index'' then ''Date'' else s)"

fun rename_index :: "column col_index \<Rightarrow> column col_index" where
  "rename_index (Flat cs) = Flat (map (\<lambda>c. if c = Index then Date else c) cs)"
| "rename_index (TwoLevel ps) =
     TwoLevel (map (\<lambda>q. (if fst q = Index then Date else fst q, rename_label (snd q))) ps)"

fun append_column :: "column col_index \<Rightarrow> column \<Rightarrow> column col_index" where
  "append_column (Flat cs) c = Flat (cs @ [c])"
| "append_column (TwoLevel ps) c = TwoLevel (ps @ [(c, [])])"

text \<open>Lines 103 to 105: the one-row frame of a row.\<close>

definition day_df :: "string \<Rightarrow> field col_index \<Rightarrow> date \<times> 'v list \<Rightarrow> 'v frame" where
  "day_df ticker cs r =
     \<lparr>cols = append_column (rename_index (with_index_column Index cs)) Ticker,
      body = [TS (fst r) # map Num (snd r) @ [Txt ticker]]\<rparr>"

text \<open>
  \<^verbatim>\<open>df.to_csv(index=False)\<close>, kept at the level of fields: one header line per level of
  the column index, then one line per row.
\<close>

fun header_lines :: "column col_index \<Rightarrow> 'v cell list list" where
  "header_lines (Flat cs) = [map (\<lambda>c. Txt (col_name c)) cs]"
| "header_lines (TwoLevel ps) =
     [map (\<lambda>q. Txt (col_name (fst q))) ps, map (\<lambda>q. Txt (snd q)) ps]"

definition to_csv :: "'v frame \<Rightarrow> 'v cell list list" where
  "to_csv df = header_lines (cols df) @ body df"

section \<open>The world the script acts on\<close>

text \<open>
  Effects are explicit: the local file system (\<open>dirs\<close>, \<open>files\<close>), the objects of the
  cloud buckets (\<open>blobs\<close>, by bucket name and object name, with their content type),
  what was written to and read from the terminal, and a trace of the operations
  attempted. The environment decides which operation raises (\<open>faults\<close>, with the
  message of the exception), how far a raising operation got (\<open>progress\<close>: the
  directories created, the lines that reached the file) and what the data source answers
  (\<open>yf_download\<close>). Files are keyed by the path string as the script builds it.
\<close>

datatype 'a result = Ok 'a | Raised string

datatype event =
    Download string string
  | MakeDirs string
  | OpenFile string
  | WriteFile string
  | UploadBlob string string
  | ClientInit string

record 'v world =
  stdin :: "string list"
  stdout :: "string list"
  dirs :: "string set"
  files :: "string \<rightharpoonup> 'v cell list list"
  blobs :: "string \<times> string \<rightharpoonup> 'v cell list list \<times> string"
  trace :: "event list"
  faults :: "event \<Rightarrow> string option"
  progress :: "event \<Rightarrow> nat"
  yf_download :: "string \<Rightarrow> string \<Rightarrow> 'v stock_frame result"
  storage_installed :: bool

definition print :: "string \<Rightarrow> 'v world \<Rightarrow> 'v world" where
  "print s w = w\<lparr>stdout := stdout w @ [s]\<rparr>"

definition attempt :: "event \<Rightarrow> 'v world \<Rightarrow> 'v world" where
  "attempt e w = w\<lparr>trace := trace w @ [e]\<rparr>"

text \<open>
  \<^verbatim>\<open>os.makedirs(d, exist_ok=True)\<close> creates the missing ancestors of \<open>d\<close>, outermost
  first, then \<open>d\<close>; when it raises, the directories created so far remain.
\<close>

definition parents :: "string \<Rightarrow> string list" where
  "parents d =
     map (\<lambda>i. take i d)
       (filter (\<lambda>i. d ! i = CHR ''/'' \<and> d ! (i - 1) \<noteq> CHR ''/'') [1..<length d])"

definition makedirs :: "string \<Rightarrow> 'v world \<Rightarrow> unit result \<times> 'v world" where
  "makedirs d w =
     (let w1 = attempt (MakeDirs d) w
      in case faults w (MakeDirs d) of
           Some msg \<Rightarrow>
             (Raised msg,
              w1\<lparr>dirs := dirs w1 \<union> set (take (progress w (MakeDirs d)) (parents d @ [d]))\<rparr>)
         | None \<Rightarrow> (Ok (), w1\<lparr>dirs := dirs w1 \<union> set (parents d @ [d])\<rparr>))"

text \<open>
  \<^verbatim>\<open>df.to_csv(path)\<close> first opens the file for writing, which creates or truncates it,
  and then writes the lines. When the open raises, the file system is untouched; when
  the writing raises, the file is left with the lines that had reached it, possibly
  none, whatever it held before.
\<close>

definition write_file :: "string \<Rightarrow> 'v cell list list \<Rightarrow> 'v world \<Rightarrow> unit result \<times> 'v world" where
  "write_file path content w =
     (let w1 = attempt (OpenFile path) w
      in case faults w (OpenFile path) of
           Some msg \<Rightarrow> (Raised msg, w1)
         | None \<Rightarrow>
             (let w2 = attempt (WriteFile path) w1
              in case faults w (WriteFile path) of
                   Some msg \<Rightarrow>
                     (Raised msg,
                      w2\<lparr>files := (files w2)(path \<mapsto> take (progress w (WriteFile path)) content)\<rparr>)
                 | None \<Rightarrow> (Ok (), w2\<lparr>files := (files w2)(path \<mapsto> content)\<rparr>)))"

text \<open>
  \<^verbatim>\<open>blob.upload_from_string\<close>: an object becomes visible in the bucket only when its
  upload has completed, so an upload that raises leaves the bucket as it was.
\<close>

definition upload_from_string ::
  "string \<Rightarrow> string \<Rightarrow> 'v cell list list \<Rightarrow> string \<Rightarrow> 'v world \<Rightarrow> unit result \<times> 'v world" where
  "upload_from_string bucket name content content_type w =
     (let w1 = attempt (UploadBlob bucket name) w
      in case faults w (UploadBlob bucket name) of
           Some msg \<Rightarrow> (Raised msg, w1)
         | None \<Rightarrow> (Ok (), w1\<lparr>blobs := (blobs w1)((bucket, name) \<mapsto> (content, content_type))\<rparr>))"

section \<open>The storage backends\<close>

definition save_data_locally ::
  "'v frame \<Rightarrow> string \<Rightarrow> string \<Rightarrow> 'v world \<Rightarrow> unit result \<times> 'v world" where
  "save_data_locally df ticker file_date w =
     (let path = local_path ticker file_date
      in case makedirs (dirname path) w of
           (Raised msg, w1) \<Rightarrow> (Raised msg, w1)
         | (Ok _, w1) \<Rightarrow> write_file path (to_csv df) w1)"

definition upload_data_to_gcs ::
  "'v frame \<Rightarrow> string \<Rightarrow> string \<Rightarrow> string \<Rightarrow> 'v world \<Rightarrow> unit result \<times> 'v world" where
  "upload_data_to_gcs df ticker file_date bucket w =
     upload_from_string bucket (gcs_key ticker file_date) (to_csv df) ''text/csv'' w"

section \<open>Ingestion\<close>

text \<open>The body of the loop of \<^verbatim>\<open>fetch_and_store_data\<close> (lines 103 to 110).\<close>

definition store_row ::
  "string \<Rightarrow> string \<Rightarrow> string option \<Rightarrow> field col_index \<Rightarrow> date \<times> 'v list \<Rightarrow> 'v world
     \<Rightarrow> unit result \<times> 'v world" where
  "store_row ticker storage_target gcs_bucket cs r w =
     (let df = day_df ticker cs r;
          file_date = strftime_ymd (fst r)
      in if storage_target = ''local'' then save_data_locally df ticker file_date w
         else if storage_target = ''gcp'' \<and> gcs_bucket \<noteq> None
           then upload_data_to_gcs df ticker file_date (the gcs_bucket) w
         else (Ok (), w))"

text \<open>The loop itself: an exception raised by a row leaves the loop.\<close>

fun store_rows ::
  "string \<Rightarrow> string \<Rightarrow> string option \<Rightarrow> field col_index \<Rightarrow> (date \<times> 'v list) list \<Rightarrow> 'v world
     \<Rightarrow> unit result \<times> 'v world" where
  "store_rows ticker storage_target gcs_bucket cs [] w = (Ok (), w)"
| "store_rows ticker storage_target gcs_bucket cs (r # rs) w =
     (case store_row ticker storage_target gcs_bucket cs r w of
        (Raised msg, w1) \<Rightarrow> (Raised msg, w1)
      | (Ok _, w1) \<Rightarrow> store_rows ticker storage_target gcs_bucket cs rs w1)"

text \<open>The lines that \<^verbatim>\<open>fetch_and_store_data\<close> prints.\<close>

definition msg_fetching :: "string \<Rightarrow> string \<Rightarrow> string" where
  "msg_fetching ticker storage_target =
     ''\<newline>[1] Fetching data for '' @ [CHR 0x27] @ ticker @ [CHR 0x27] @ '' | Target: ''
       @ upper_str storage_target"

definition msg_no_data :: "string \<Rightarrow> string" where
  "msg_no_data ticker =
     ''ERROR: No data found for '' @ [CHR 0x27] @ ticker @ [CHR 0x27] @ ''. Please check the symbol.''"

definition msg_fetched :: "nat \<Rightarrow> string" where
  "msg_fetched n = ''-> Fetched '' @ str_nat n @ '' data points.''"

definition msg_complete :: string where
  "msg_complete = ''-> Data ingestion complete.''"

definition msg_fetch_error :: "string \<Rightarrow> string" where
  "msg_fetch_error e = ''An error occurred during data fetch: '' @ e"

definition fetch_and_store_data ::
  "string \<Rightarrow> string \<Rightarrow> string \<Rightarrow> string option \<Rightarrow> 'v world \<Rightarrow> 'v frame option \<times> 'v world" where
  "fetch_and_store_data ticker period storage_target gcs_bucket w =
     (let w0 = print (msg_fetching ticker storage_target) w;
          w1 = attempt (Download ticker period) w0
      in case yf_download w ticker period of
           Raised e \<Rightarrow> (None, print (msg_fetch_error e) w1)
         | Ok stock_data \<Rightarrow>
             if empty_frame stock_data then (None, print (msg_no_data ticker) w1)
             else
               (let w2 = print (msg_fetched (length (rows stock_data))) w1
                in case store_rows ticker storage_target gcs_bucket (columns stock_data)
                          (rows stock_data) w2 of
                     (Raised e, w3) \<Rightarrow> (None, print (msg_fetch_error e) w3)
                   | (Ok _, w3) \<Rightarrow> (Some (reset_index stock_data), print msg_complete w3)))"

section \<open>The interactive front end\<close>

text \<open>
  The terminal input is a finite list of lines; \<^verbatim>\<open>input\<close> writes its prompt and
  raises \<^verbatim>\<open>EOFError\<close> when no line is left.
\<close>

definition then_do ::
  "'a result \<times> 'w \<Rightarrow> ('a \<Rightarrow> 'w \<Rightarrow> 'b result \<times> 'w) \<Rightarrow> 'b result \<times> 'w" where
  "then_do m k = (case m of (Raised msg, w) \<Rightarrow> (Raised msg, w) | (Ok x, w) \<Rightarrow> k x w)"

definition input :: "string \<Rightarrow> 'v world \<Rightarrow> string result \<times> 'v world" where
  "input prompt w =
     (let w1 = w\<lparr>stdout := stdout w @ [prompt]\<rparr>
      in case stdin w of
           [] \<Rightarrow> (Raised ''EOF when reading a line'', w1)
         | l # ls \<Rightarrow> (Ok l, w1\<lparr>stdin := ls\<rparr>))"

datatype options = PyList "string list" | DictKeys "string list"

fun members :: "options \<Rightarrow> string list" where
  "members (PyList xs) = xs"
| "members (DictKeys xs) = xs"

fun comma_sep :: "string list \<Rightarrow> string" where
  "comma_sep [] = []"
| "comma_sep [x] = x"
| "comma_sep (x # y # ys) = x @ '', '' @ comma_sep (y # ys)"

definition repr_str :: "string \<Rightarrow> string" where
  "repr_str s = [CHR 0x27] @ s @ [CHR 0x27]"

fun repr_options :: "options \<Rightarrow> string" where
  "repr_options (PyList xs) = ''['' @ comma_sep (map repr_str xs) @ '']''"
| "repr_options (DictKeys xs) = ''dict_keys(['' @ comma_sep (map repr_str xs) @ ''])''"

text \<open>
  The \<^verbatim>\<open>while True\<close> loop of \<^verbatim>\<open>get_user_choice\<close>, by recursion on the lines left to
  read: the result, the lines not consumed and the terminal output.
\<close>

fun get_user_choice_loop ::
  "string \<Rightarrow> options \<Rightarrow> string list \<Rightarrow> string list \<Rightarrow> string result \<times> string list \<times> string list" where
  "get_user_choice_loop prompt opts [] out = (Raised ''EOF when reading a line'', [], out @ [prompt])"
| "get_user_choice_loop prompt opts (l # ls) out =
     (let choice = strip (lower_str l)
      in if choice \<in> set (members opts) then (Ok choice, ls, out @ [prompt])
         else get_user_choice_loop prompt opts ls
                (out @ [prompt, ''Invalid choice. Please select one of '' @ repr_options opts @ ''.'']))"

definition get_user_choice :: "string \<Rightarrow> options \<Rightarrow> 'v world \<Rightarrow> string result \<times> 'v world" where
  "get_user_choice prompt opts w =
     (case get_user_choice_loop prompt opts (stdin w) (stdout w) of
        (r, ls, out) \<Rightarrow> (r, w\<lparr>stdin := ls, stdout := out\<rparr>))"

definition period_options :: "(string \<times> string) list" where
  "period_options =
     [(''1'', ''7d''), (''2'', ''1mo''), (''3'', ''1y''), (''4'', ''3y''), (''5'', ''5y''),
      (''6'', ''max'')]"

definition period_map_display :: "(string \<times> string) list" where
  "period_map_display =
     [(''1'', ''Weekly (7d)''), (''2'', ''Monthly (1mo)''), (''3'', ''Yearly (1y)''),
      (''4'', ''3 Years''), (''5'', ''5 Years''), (''6'', ''All Time'')]"

definition get_analysis_parameters :: "'v world \<Rightarrow> (string \<times> string) result \<times> 'v world" where
  "get_analysis_parameters w =
     (let w1 = print ''\<newline>--- Asset & Period Selection ---'' w;
          w2 = print ''Formats: NSE -> RELIANCE.NS | BSE -> 500325.BO | MF -> AXISBLUECHIP.NS'' w1
      in then_do (input ''Enter ticker symbol: '' w2) (\<lambda>line w3.
           let ticker = strip (upper_str line);
               w4 = print ''\<newline>Select time period:'' w3;
               w5 = foldl (\<lambda>wx (key, val). print (''  '' @ key @ '': '' @ val) wx) w4
                      period_map_display
           in then_do (get_user_choice ''Enter choice (1-6): '' (DictKeys (map fst period_options)) w5)
                (\<lambda>choice w6.
                   case map_of period_options choice of
                     None \<Rightarrow> (Raised (repr_str choice), w6)
                   | Some period \<Rightarrow> (Ok (ticker, period), w6))))"

text \<open>
  \<^verbatim>\<open>get_gcs_bucket\<close>: the handle of a bucket is its name; \<open>None\<close> when the client
  library is missing or the client cannot be built.
\<close>

definition get_gcs_bucket :: "string \<Rightarrow> 'v world \<Rightarrow> string option \<times> 'v world" where
  "get_gcs_bucket bucket_name w =
     (if \<not> storage_installed w
      then (None, print (''\<newline>FATAL: '' @ repr_str ''google-cloud-storage'' @ '' not installed. Run ''
                          @ repr_str ''pip install google-cloud-storage'' @ ''.'') w)
      else
        (let w1 = attempt (ClientInit bucket_name) w
         in case faults w (ClientInit bucket_name) of
              Some msg \<Rightarrow>
                (None, print (''\<newline>FATAL: Could not initialize GCS client. ''
                               @ ''Ensure GOOGLE_APPLICATION_CREDENTIALS is set.'') w1)
            | None \<Rightarrow> (Some bucket_name, w1)))"

text \<open>
  The renderer and the emitter of the companion code are collaborators of the pipeline,
  taken as parameters.
\<close>

definition process_data_locally ::
  "('v frame \<Rightarrow> string \<Rightarrow> string \<Rightarrow> 'v world \<Rightarrow> unit result \<times> 'v world)
     \<Rightarrow> 'v frame option \<Rightarrow> string \<Rightarrow> string \<Rightarrow> 'v world \<Rightarrow> unit result \<times> 'v world" where
  "process_data_locally plot_stock_performance fetched_data ticker period w =
     (let w1 = print (''\<newline>[2] Processing data locally for '' @ repr_str ticker @ ''...'') w
      in case fetched_data of
           None \<Rightarrow> (Ok (), print ''-> No data to process.'' w1)
         | Some df \<Rightarrow>
             if body df = [] \<or> ncols (cols df) = 0
             then (Ok (), print ''-> No data to process.'' w1)
             else plot_stock_performance df ticker period w1)"

definition PLACEHOLDER_BUCKET :: string where
  "PLACEHOLDER_BUCKET = ''your-gcs-bucket-name''"

definition CONFIG_ERROR :: string where
  "CONFIG_ERROR = ''\<newline>ERROR: Please update the GCS_BUCKET_NAME in the script before using GCP.''"

definition NO_TICKER :: string where
  "NO_TICKER = ''No ticker provided. Exiting.''"

text \<open>
  \<^verbatim>\<open>main\<close>. The module constant \<^verbatim>\<open>GCS_BUCKET_NAME\<close>, which the operator is told to
  edit, is its first parameter.
\<close>

definition main ::
  "string
     \<Rightarrow> ('v frame \<Rightarrow> string \<Rightarrow> string \<Rightarrow> 'v world \<Rightarrow> unit result \<times> 'v world)
     \<Rightarrow> (string \<Rightarrow> 'v world \<Rightarrow> unit result \<times> 'v world)
     \<Rightarrow> 'v world \<Rightarrow> unit result \<times> 'v world" where
  "main GCS_BUCKET_NAME plot_stock_performance provide_databricks_instructions w =
     then_do (get_user_choice ''Select storage target (local/gcp): '' (PyList [''local'', ''gcp'']) w)
       (\<lambda>storage_target w1.
     then_do (get_user_choice ''Select processing target (local/databricks): ''
                (PyList [''local'', ''databricks'']) w1)
       (\<lambda>processing_target w2.
     then_do (get_analysis_parameters w2)
       (\<lambda>(ticker, period) w3.
          if ticker = [] then (Ok (), print NO_TICKER w3)
          else if storage_target = ''gcp'' \<and> GCS_BUCKET_NAME = PLACEHOLDER_BUCKET
            then (Ok (), print CONFIG_ERROR w3)
          else
            (let (gcs_bucket, w4) =
                   (if storage_target = ''gcp'' then get_gcs_bucket GCS_BUCKET_NAME w3
                    else (None, w3))
             in if storage_target = ''gcp'' \<and> gcs_bucket = None then (Ok (), w4)
                else
                  (let (fetched_data, w5) =
                         fetch_and_store_data ticker period storage_target gcs_bucket w4
                   in if processing_target = ''local''
                        then process_data_locally plot_stock_performance fetched_data ticker period w5
                      else if processing_target = ''databricks''
                        then provide_databricks_instructions ticker w5
                      else (Ok (), w5))))))"

section \<open>Notions used to state the properties\<close>

text \<open>The shape \<^verbatim>\<open>YYYY-MM-DD\<close>: ten characters, digits around two hyphens.\<close>

definition is_digit :: "char \<Rightarrow> bool" where
  "is_digit c = (c \<in> set ''0123456789'')"

definition iso_date :: "string \<Rightarrow> bool" where
  "iso_date s =
     (length s = 10 \<and> s ! 4 = CHR ''-'' \<and> s ! 7 = CHR ''-'' \<and>
      list_all is_digit [s ! 0, s ! 1, s ! 2, s ! 3, s ! 5, s ! 6, s ! 8, s ! 9])"

definition ends_with_sep :: "string \<Rightarrow> bool" where
  "ends_with_sep t = (t \<noteq> [] \<and> last t = CHR ''/'')"

text \<open>The file date of a row, as line 106 computes it.\<close>

definition file_date :: "date \<times> 'v list \<Rightarrow> string" where
  "file_date r = strftime_ymd (fst r)"

text \<open>
  The lines expected in the partition of one row of a frame with the given column
  index: the header (one line per level; the upper line names the columns, the lower
  line carries the lower labels, empty under \<open>Date\<close> and \<open>Ticker\<close>), then the one
  data line.
\<close>

definition partition_lines :: "string \<Rightarrow> field col_index \<Rightarrow> date \<times> 'v list \<Rightarrow> 'v cell list list" where
  "partition_lines ticker idx r =
     (case idx of
        Flat fs \<Rightarrow> [Txt ''Date'' # map (\<lambda>f. Txt (field_name f)) fs @ [Txt ''Ticker'']]
      | TwoLevel ps \<Rightarrow>
          [Txt ''Date'' # map (\<lambda>q. Txt (field_name (fst q))) ps @ [Txt ''Ticker''],
           Txt [] # map (\<lambda>q. Txt (if snd q = ''index'' then ''Date'' else snd q)) ps @ [Txt []]])
     @ [TS (fst r) # map Num (snd r) @ [Txt ticker]]"

text \<open>The storage operations that the loop body attempts for one row.\<close>

definition row_events :: "string \<Rightarrow> string \<Rightarrow> string option \<Rightarrow> date \<times> 'v list \<Rightarrow> event list" where
  "row_events ticker storage_target gcs_bucket r =
     (if storage_target = ''local''
      then [MakeDirs (dirname (local_path ticker (file_date r))),
            OpenFile (local_path ticker (file_date r)),
            WriteFile (local_path ticker (file_date r))]
      else if storage_target = ''gcp'' \<and> gcs_bucket \<noteq> None
        then [UploadBlob (the gcs_bucket) (gcs_key ticker (file_date r))]
      else [])"

text \<open>The world in which the loop of \<^verbatim>\<open>fetch_and_store_data\<close> starts (after line 101).\<close>

definition loop_start :: "string \<Rightarrow> string \<Rightarrow> string \<Rightarrow> nat \<Rightarrow> 'v world \<Rightarrow> 'v world" where
  "loop_start ticker period storage_target n w =
     print (msg_fetched n)
       (attempt (Download ticker period) (print (msg_fetching ticker storage_target) w))"

text \<open>The three prompts that open \<^verbatim>\<open>main\<close> (lines 164 to 166).\<close>

definition read_inputs :: "'v world \<Rightarrow> (string \<times> string \<times> string \<times> string) result \<times> 'v world" where
  "read_inputs w =
     then_do (get_user_choice ''Select storage target (local/gcp): '' (PyList [''local'', ''gcp'']) w)
       (\<lambda>storage_target w1.
     then_do (get_user_choice ''Select processing target (local/databricks): ''
                (PyList [''local'', ''databricks'']) w1)
       (\<lambda>processing_target w2.
     then_do (get_analysis_parameters w2)
       (\<lambda>(ticker, period) w3. (Ok (storage_target, processing_target, ticker, period), w3))))"

text \<open>Two worlds with the same storage contents and the same trace of operations.\<close>

definition same_store :: "'v world \<Rightarrow> 'v world \<Rightarrow> bool" where
  "same_store w w1 =
     (trace w1 = trace w \<and> files w1 = files w \<and> blobs w1 = blobs w \<and> dirs w1 = dirs w)"

section \<open>Example runs\<close>

definition jan :: "nat \<Rightarrow> date" where
  "jan n = \<lparr>year = 2024, month = 1, day = n\<rparr>"

definition example_frame :: "int stock_frame" where
  "example_frame =
     \<lparr>columns = Flat [Open, High, Low, Close, Volume],
      rows = [(jan 2, [100, 110, 95, 105, 1000]),
              (jan 3, [105, 112, 101, 111, 1200]),
              (jan 4, [111, 115, 108, 109, 900])]\<rparr>"


definition example_world ::
  "string list \<Rightarrow> (event \<Rightarrow> string option) \<Rightarrow> (string \<Rightarrow> string \<Rightarrow> int stock_frame result)
     \<Rightarrow> int world" where
  "example_world ins fl src =
     \<lparr>stdin = ins, stdout = [], dirs = {}, files = Map.empty, blobs = Map.empty, trace = [],
      faults = fl, progress = (\<lambda>e. 0), yf_download = src, storage_installed = True\<rparr>"

definition no_faults :: "event \<Rightarrow> string option" where
  "no_faults e = None"


definition serves :: "int stock_frame \<Rightarrow> string \<Rightarrow> string \<Rightarrow> int stock_frame result" where
  "serves sd ticker period = Ok sd"

definition source_down :: "string \<Rightarrow> string \<Rightarrow> string \<Rightarrow> int stock_frame result" where
  "source_down msg ticker period = Raised msg"

definition no_plot :: "int frame \<Rightarrow> string \<Rightarrow> string \<Rightarrow> int world \<Rightarrow> unit result \<times> int world" where
  "no_plot df ticker period w = (Ok (), w)"

definition no_emit :: "string \<Rightarrow> int world \<Rightarrow> unit result \<times> int world" where
  "no_emit ticker w = (Ok (), w)"


definition healthy_world :: "int world" where
  "healthy_world = example_world [] no_faults (serves example_frame)"

definition no_data_world :: "int world" where
  "no_data_world =
     example_world [] no_faults (serves \<lparr>columns = Flat [Open, Close], rows = []\<rparr>)"


definition offline_world :: "int world" where
  "offline_world = example_world [] no_faults (source_down ''connection refused'')"

definition typed_world :: "string list \<Rightarrow> int world" where
  "typed_world ins = example_world ins no_faults (serves example_frame)"

section \<open>Rendering of dates\<close>

lemma digit_char_inj: "a < 10 \<Longrightarrow> b < 10 \<Longrightarrow> digit_char a = digit_char b \<Longrightarrow> a = b"
proof -
  assume a: "a < 10" and b: "b < 10" and e: "digit_char a = digit_char b"
  have A: "a \<in> {0,1,2,3,4,5,6,7,8,9}" using a by auto
  have B: "b \<in> {0,1,2,3,4,5,6,7,8,9}" using b by auto
  show ?thesis using A B e by (auto simp: digit_char_def)
qed

lemma str_nat_digit: "n < 10 \<Longrightarrow> str_nat n = [digit_char n]"
  by (simp add: str_nat.simps)

lemma str_nat_step: "10 \<le> n \<Longrightarrow> str_nat n = str_nat (n div 10) @ [digit_char (n mod 10)]"
  by (subst str_nat.simps) simp

lemma str_nat_4:
  assumes "1000 \<le> n" "n < 10000"
  shows "str_nat n = [digit_char (n div 1000), digit_char (n div 100 mod 10),
                      digit_char (n div 10 mod 10), digit_char (n mod 10)]"
proof -
  have a1: "10 \<le> n" using assms by arith
  have a2: "10 \<le> n div 10" using assms by arith
  have a3: "10 \<le> n div 10 div 10" using assms by arith
  have a4: "n div 10 div 10 div 10 < 10" using assms by arith
  have d2: "n div 10 div 10 = n div 100" by arith
  have "str_nat n = [digit_char (n div 10 div 10 div 10), digit_char (n div 10 div 10 mod 10),
                      digit_char (n div 10 mod 10), digit_char (n mod 10)]"
    unfolding str_nat_step[OF a1] str_nat_step[OF a2] str_nat_step[OF a3] str_nat_digit[OF a4]
    by simp
  moreover have "n div 100 div 10 = n div 1000" by arith
  ultimately show ?thesis by (simp only: d2)
qed

lemma zfill2_2: "n < 100 \<Longrightarrow> zfill2 n = [digit_char (n div 10), digit_char (n mod 10)]"
proof (cases "n < 10")
  case True
  then show ?thesis by (simp add: zfill2_def str_nat_digit digit_char_def)
next
  case False
  assume "n < 100"
  then have "n div 10 < 10" by arith
  with False show ?thesis by (simp add: zfill2_def str_nat_step str_nat_digit)
qed

lemma strftime_ymd_form:
  assumes "valid_date d"
  shows "strftime_ymd d =
    [digit_char (year d div 1000), digit_char (year d div 100 mod 10),
     digit_char (year d div 10 mod 10), digit_char (year d mod 10), CHR ''-'',
     digit_char (month d div 10), digit_char (month d mod 10), CHR ''-'',
     digit_char (day d div 10), digit_char (day d mod 10)]"
proof -
  have y: "1000 \<le> year d" "year d < 10000" and m: "month d < 100"
    using assms by (auto simp: valid_date_def)
  have "days_in_month (year d) (month d) \<le> 31" by (simp add: days_in_month_def)
  then have dd: "day d < 100" using assms by (auto simp: valid_date_def)
  show ?thesis by (simp add: strftime_ymd_def str_nat_4[OF y] zfill2_2[OF m] zfill2_2[OF dd])
qed

lemma length_strftime_ymd: "valid_date d \<Longrightarrow> length (strftime_ymd d) = 10"
  by (simp add: strftime_ymd_form)

lemma two_digits_eq:
  fixes a b :: nat
  assumes "a div 10 = b div 10" "a mod 10 = b mod 10"
  shows "a = b"
  using assms by (metis div_mult_mod_eq)

lemma strftime_ymd_inj:
  assumes v1: "valid_date d1" and v2: "valid_date d2"
    and e: "strftime_ymd d1 = strftime_ymd d2"
  shows "d1 = d2"
proof -
  have b1: "year d1 < 10000" "year d2 < 10000"
    using v1 v2 by (auto simp: valid_date_def)
  from e have eqs:
    "digit_char (year d1 div 1000) = digit_char (year d2 div 1000)"
    "digit_char (year d1 div 100 mod 10) = digit_char (year d2 div 100 mod 10)"
    "digit_char (year d1 div 10 mod 10) = digit_char (year d2 div 10 mod 10)"
    "digit_char (year d1 mod 10) = digit_char (year d2 mod 10)"
    "digit_char (month d1 div 10) = digit_char (month d2 div 10)"
    "digit_char (month d1 mod 10) = digit_char (month d2 mod 10)"
    "digit_char (day d1 div 10) = digit_char (day d2 div 10)"
    "digit_char (day d1 mod 10) = digit_char (day d2 mod 10)"
    by (simp_all add: strftime_ymd_form[OF v1] strftime_ymd_form[OF v2])
  have m: "month d1 div 10 < 10" "month d2 div 10 < 10"
    using v1 v2 by (auto simp: valid_date_def)
  have "days_in_month (year d1) (month d1) \<le> 31" "days_in_month (year d2) (month d2) \<le> 31"
    by (simp_all add: days_in_month_def)
  then have dd: "day d1 div 10 < 10" "day d2 div 10 < 10"
    using v1 v2 by (auto simp: valid_date_def)
  have yk: "year d1 div 1000 < 10" "year d2 div 1000 < 10" using b1 by arith+
  have y3: "year d1 div 1000 = year d2 div 1000"
    using yk eqs(1) by (rule digit_char_inj)
  have y2: "year d1 div 100 mod 10 = year d2 div 100 mod 10"
    using eqs(2) by (intro digit_char_inj) simp_all
  have y1: "year d1 div 10 mod 10 = year d2 div 10 mod 10"
    using eqs(3) by (intro digit_char_inj) simp_all
  have y0: "year d1 mod 10 = year d2 mod 10"
    using eqs(4) by (intro digit_char_inj) simp_all
  have m1: "month d1 div 10 = month d2 div 10"
    using m eqs(5) by (rule digit_char_inj)
  have m0: "month d1 mod 10 = month d2 mod 10"
    using eqs(6) by (intro digit_char_inj) simp_all
  have dd1: "day d1 div 10 = day d2 div 10"
    using dd eqs(7) by (rule digit_char_inj)
  have dd0: "day d1 mod 10 = day d2 mod 10"
    using eqs(8) by (intro digit_char_inj) simp_all
  have "year d1 div 100 div 10 = year d2 div 100 div 10"
    using y3 by (simp add: div_mult2_eq[symmetric])
  then have "year d1 div 100 = year d2 div 100" using y2 by (rule two_digits_eq)
  then have "year d1 div 10 div 10 = year d2 div 10 div 10"
    by (simp add: div_mult2_eq[symmetric])
  then have "year d1 div 10 = year d2 div 10" using y1 by (rule two_digits_eq)
  then have "year d1 = year d2" using y0 by (rule two_digits_eq)
  moreover have "month d1 = month d2" using m1 m0 by (rule two_digits_eq)
  moreover have "day d1 = day d2" using dd1 dd0 by (rule two_digits_eq)
  ultimately show ?thesis by simp
qed

section \<open>Paths and keys\<close>

lemma gcs_key_cancel:
  assumes "length s1 = length s2" and "gcs_key t1 s1 = gcs_key t2 s2"
  shows "t1 = t2 \<and> s1 = s2"
proof -
  have "t1 @ (''/date='' @ s1 @ ''.csv'') = t2 @ (''/date='' @ s2 @ ''.csv'')"
    using assms(2) by (simp add: gcs_key_def)
  moreover have "length (''/date='' @ s1 @ ''.csv'') = length (''/date='' @ s2 @ ''.csv'')"
    using assms(1) by simp
  ultimately have "t1 = t2 \<and> ''/date='' @ s1 @ ''.csv'' = ''/date='' @ s2 @ ''.csv''"
    using append_eq_append_conv[of t1 t2 "''/date='' @ s1 @ ''.csv''" "''/date='' @ s2 @ ''.csv''"]
    by blast
  then show ?thesis by simp
qed

lemma local_path_plain:
  assumes "t = [] \<or> last t \<noteq> CHR ''/''"
  shows "local_path t s = ''stock_data_lake/'' @ gcs_key t s"
proof -
  have "last (''ticker='' @ t) \<noteq> CHR ''/''" using assms by auto
  then have "last (''stock_data_lake/ticker='' @ t) \<noteq> CHR ''/''" by (cases "t = []") simp_all
  then show ?thesis
    by (simp add: local_path_def path_join_def join2_def LOCAL_DATA_LAKE_FOLDER_def gcs_key_def)
qed

text \<open>
  Claim C4, as amended. The object name is injective over all pairs of a ticker and a
  valid date; the local path is injective over the pairs whose ticker does not end with
  the path separator. (Both are functions of the pair alone, hence deterministic.)
\<close>

theorem partition_key_injective:
  assumes "valid_date d1" and "valid_date d2"
  shows "(gcs_key t1 (strftime_ymd d1) = gcs_key t2 (strftime_ymd d2) \<longrightarrow> t1 = t2 \<and> d1 = d2) \<and>
         (\<not> ends_with_sep t1 \<and> \<not> ends_with_sep t2 \<and>
          local_path t1 (strftime_ymd d1) = local_path t2 (strftime_ymd d2) \<longrightarrow> t1 = t2 \<and> d1 = d2)"
proof -
  have len: "length (strftime_ymd d1) = length (strftime_ymd d2)"
    using assms by (simp add: length_strftime_ymd)
  have key: "t1 = t2 \<and> d1 = d2" if "gcs_key t1 (strftime_ymd d1) = gcs_key t2 (strftime_ymd d2)"
    using gcs_key_cancel[OF len that] strftime_ymd_inj[OF assms] by simp
  show ?thesis using key by (auto simp: local_path_plain ends_with_sep_def)
qed

text \<open>
  Two different days of one ticker get different object names and different local
  paths, and equal pairs get equal ones.
\<close>

theorem partition_key_injective_witness:
  "valid_date (jan 2) \<and> valid_date (jan 3) \<and> \<not> ends_with_sep ''TEST.NS'' \<and>
   gcs_key ''TEST.NS'' (strftime_ymd (jan 2)) = gcs_key ''TEST.NS'' (strftime_ymd (jan 2)) \<and>
   gcs_key ''TEST.NS'' (strftime_ymd (jan 2)) \<noteq> gcs_key ''TEST.NS'' (strftime_ymd (jan 3)) \<and>
   local_path ''TEST.NS'' (strftime_ymd (jan 2)) \<noteq> local_path ''TEST.NS'' (strftime_ymd (jan 3))"
proof -
  have v1: "valid_date (jan 2)" by (simp add: valid_date_def days_in_month_def jan_def)
  have v2: "valid_date (jan 3)" by (simp add: valid_date_def days_in_month_def jan_def)
  have e: "\<not> ends_with_sep ''TEST.NS''" by (simp add: ends_with_sep_def)
  have n: "jan 2 \<noteq> jan 3" by (simp add: jan_def)
  show ?thesis
    using v1 v2 e n partition_key_injective[OF v1 v2, of "''TEST.NS''" "''TEST.NS''"] by blast
qed

text \<open>
  Claim C4 as stated fails: the tickers \<open>A\<close> and \<open>A/\<close> are both non-empty and
  normalized, and on the same day they share one local path.
\<close>

theorem partition_key_injective_counterexample:
  "valid_ticker ''A'' \<and> valid_ticker ''A/'' \<and> valid_date (jan 2) \<and>
   (''A'', jan 2) \<noteq> (''A/'', jan 2) \<and>
   local_path ''A'' (strftime_ymd (jan 2)) = local_path ''A/'' (strftime_ymd (jan 2))"
  by (simp add: valid_ticker_def normalize_ticker_def strip_def upper_str_def upper_char_def
        is_space_def valid_date_def days_in_month_def jan_def local_path_def path_join_def
        join2_def LOCAL_DATA_LAKE_FOLDER_def)

lemma is_digit_digit_char: "k < 10 \<Longrightarrow> is_digit (digit_char k)"
  unfolding is_digit_def digit_char_def by (rule nth_mem) simp

lemma is_digit_not_sep: "is_digit c \<Longrightarrow> c \<noteq> CHR ''/''"
  by (auto simp: is_digit_def)

lemma date_digit_bounds:
  assumes "valid_date d"
  shows "year d div 1000 < 10" "month d div 10 < 10" "day d div 10 < 10"
proof -
  have "year d < 10000" "month d < 100" using assms by (simp_all add: valid_date_def)
  then show "year d div 1000 < 10" "month d div 10 < 10" by arith+
  have "days_in_month (year d) (month d) \<le> 31" by (simp add: days_in_month_def)
  then have "day d < 100" using assms by (simp add: valid_date_def)
  then show "day d div 10 < 10" by arith
qed

lemma strftime_ymd_iso:
  assumes "valid_date d"
  shows "iso_date (strftime_ymd d)"
  using date_digit_bounds[OF assms]
  by (simp add: iso_date_def strftime_ymd_form[OF assms] is_digit_digit_char)

lemma strftime_ymd_no_sep:
  assumes "valid_date d"
  shows "CHR ''/'' \<notin> set (strftime_ymd d)"
proof -
  have "CHR ''/'' \<noteq> digit_char k" if "k < 10" for k
    using is_digit_not_sep[OF is_digit_digit_char[OF that]] by simp
  then show ?thesis
    using date_digit_bounds[OF assms] by (simp add: strftime_ymd_form[OF assms])
qed

lemma dirname_file:
  assumes "CHR ''/'' \<notin> set f" and "P \<noteq> []" and "last P \<noteq> CHR ''/''"
  shows "dirname (P @ ''/'' @ f) = P"
proof -
  have 1: "dropWhile (\<lambda>c. c \<noteq> CHR ''/'') (rev (P @ ''/'' @ f)) = CHR ''/'' # rev P"
  proof -
    have "\<And>x. x \<in> set (rev f) \<Longrightarrow> x \<noteq> CHR ''/''" using assms(1) by auto
    then have "dropWhile (\<lambda>c. c \<noteq> CHR ''/'') (rev f @ CHR ''/'' # rev P)
                 = dropWhile (\<lambda>c. c \<noteq> CHR ''/'') (CHR ''/'' # rev P)"
      by (rule dropWhile_append2)
    then show ?thesis by simp
  qed
  have mem: "last P \<in> set P" using assms(2) by (rule last_in_set)
  have 2: "\<not> list_all (\<lambda>c. c = CHR ''/'') (P @ ''/'')"
  proof
    assume "list_all (\<lambda>c. c = CHR ''/'') (P @ ''/'')"
    then have "\<forall>c\<in>set P. c = CHR ''/''" by (simp add: list_all_iff)
    with mem have "last P = CHR ''/''" by blast
    with assms(3) show False by contradiction
  qed
  obtain x xs where rp: "rev P = x # xs" using assms(2) by (cases "rev P") simp_all
  then have "P = rev xs @ [x]" by (simp add: rev_swap)
  then have "x \<noteq> CHR ''/''" using assms(3) by simp
  then have 3: "dropWhile (\<lambda>c. c = CHR ''/'') (rev P) = rev P" unfolding rp by simp
  have 4: "rev (CHR ''/'' # rev P) = P @ ''/''" by simp
  show ?thesis unfolding dirname_def 1 Let_def 4 using 2 3 by simp
qed

text \<open>
  Claim C5, as amended. For a valid date the file date has the shape \<^verbatim>\<open>YYYY-MM-DD\<close>
  and the object name is \<^verbatim>\<open>ticker=<TICKER>/date=<YYYY-MM-DD>.csv\<close>; for a ticker that
  does not end with the path separator the local path is that name under
  \<^verbatim>\<open>stock_data_lake/\<close>, in the directory \<^verbatim>\<open>stock_data_lake/ticker=<TICKER>\<close>.
\<close>

theorem partition_path_form:
  assumes "valid_date d"
  shows "iso_date (strftime_ymd d) \<and>
         gcs_key t (strftime_ymd d) = ''ticker='' @ t @ ''/date='' @ strftime_ymd d @ ''.csv'' \<and>
         (\<not> ends_with_sep t \<longrightarrow>
            local_path t (strftime_ymd d)
              = ''stock_data_lake/ticker='' @ t @ ''/date='' @ strftime_ymd d @ ''.csv'' \<and>
            dirname (local_path t (strftime_ymd d)) = ''stock_data_lake/ticker='' @ t)"
proof (intro conjI impI)
  show iso: "iso_date (strftime_ymd d)" using assms by (rule strftime_ymd_iso)
  show "gcs_key t (strftime_ymd d) = ''ticker='' @ t @ ''/date='' @ strftime_ymd d @ ''.csv''"
    by (simp add: gcs_key_def)
  assume t: "\<not> ends_with_sep t"
  then have t': "t = [] \<or> last t \<noteq> CHR ''/''" by (auto simp: ends_with_sep_def)
  show lp: "local_path t (strftime_ymd d)
          = ''stock_data_lake/ticker='' @ t @ ''/date='' @ strftime_ymd d @ ''.csv''"
    using t' by (simp add: local_path_plain gcs_key_def)
  have "CHR ''/'' \<notin> set (''date='' @ strftime_ymd d @ ''.csv'')"
    using strftime_ymd_no_sep[OF assms] by simp
  moreover have "last (''stock_data_lake/ticker='' @ t) \<noteq> CHR ''/''"
    using t' by (cases "t = []") simp_all
  ultimately have "dirname ((''stock_data_lake/ticker='' @ t) @ ''/'' @ (''date='' @ strftime_ymd d @ ''.csv''))
        = ''stock_data_lake/ticker='' @ t"
    by (intro dirname_file) simp_all
  then show "dirname (local_path t (strftime_ymd d)) = ''stock_data_lake/ticker='' @ t"
    unfolding lp by simp
qed

section \<open>Effects of the primitive operations\<close>

lemma print_fields [simp]:
  "stdout (print s w) = stdout w @ [s]" "stdin (print s w) = stdin w"
  "dirs (print s w) = dirs w" "files (print s w) = files w" "blobs (print s w) = blobs w"
  "trace (print s w) = trace w" "faults (print s w) = faults w"
  "progress (print s w) = progress w"
  "yf_download (print s w) = yf_download w" "storage_installed (print s w) = storage_installed w"
  by (simp_all add: print_def)

lemma attempt_fields [simp]:
  "stdout (attempt e w) = stdout w" "stdin (attempt e w) = stdin w"
  "dirs (attempt e w) = dirs w" "files (attempt e w) = files w" "blobs (attempt e w) = blobs w"
  "trace (attempt e w) = trace w @ [e]" "faults (attempt e w) = faults w"
  "progress (attempt e w) = progress w"
  "yf_download (attempt e w) = yf_download w" "storage_installed (attempt e w) = storage_installed w"
  by (simp_all add: attempt_def)

lemma loop_start_fields [simp]:
  "dirs (loop_start t p s n w) = dirs w" "files (loop_start t p s n w) = files w"
  "blobs (loop_start t p s n w) = blobs w" "faults (loop_start t p s n w) = faults w"
  "trace (loop_start t p s n w) = trace w @ [Download t p]"
  by (simp_all add: loop_start_def)

lemma reset_index_explicit:
  "reset_index sd =
     \<lparr>cols = (case columns sd of
                Flat fs \<Rightarrow> Flat (Date # map Field fs)
              | TwoLevel ps \<Rightarrow> TwoLevel ((Date, []) # map (\<lambda>q. (Field (fst q), snd q)) ps)),
      body = map (\<lambda>r. TS (fst r) # map Num (snd r)) (rows sd)\<rparr>"
  by (cases "columns sd") (simp_all add: reset_index_def case_prod_beta)

lemma fetch_raised:
  "yf_download w t p = Raised e \<Longrightarrow>
   fetch_and_store_data t p s b w =
     (None, print (msg_fetch_error e) (attempt (Download t p) (print (msg_fetching t s) w)))"
  by (simp add: fetch_and_store_data_def)

lemma fetch_empty:
  "yf_download w t p = Ok sd \<Longrightarrow> empty_frame sd \<Longrightarrow>
   fetch_and_store_data t p s b w =
     (None, print (msg_no_data t) (attempt (Download t p) (print (msg_fetching t s) w)))"
  by (simp add: fetch_and_store_data_def)

lemma fetch_loop:
  "yf_download w t p = Ok sd \<Longrightarrow> \<not> empty_frame sd \<Longrightarrow>
   fetch_and_store_data t p s b w =
     (case store_rows t s b (columns sd) (rows sd) (loop_start t p s (length (rows sd)) w) of
        (Raised e, w3) \<Rightarrow> (None, print (msg_fetch_error e) w3)
      | (Ok u, w3) \<Rightarrow> (Some (reset_index sd), print msg_complete w3))"
  by (simp add: fetch_and_store_data_def loop_start_def Let_def split: prod.split result.split)

lemma fetch_loop_ok:
  assumes "yf_download w t p = Ok sd" "\<not> empty_frame sd"
    and "store_rows t s b (columns sd) (rows sd) (loop_start t p s (length (rows sd)) w) = (Ok u, w3)"
  shows "fetch_and_store_data t p s b w = (Some (reset_index sd), print msg_complete w3)"
  using assms by (simp add: fetch_loop)



text \<open>
  Claim C2. When the data source answers with an empty frame, the function returns
  \<open>None\<close>, prints the no-data error, and leaves files, objects and directories as
  they were; the only operation attempted is the download.
\<close>

theorem empty_series_is_no_data:
  assumes "yf_download w ticker period = Ok sd" and "empty_frame sd"
  shows "fst (fetch_and_store_data ticker period storage_target gcs_bucket w) = None \<and>
         files (snd (fetch_and_store_data ticker period storage_target gcs_bucket w)) = files w \<and>
         blobs (snd (fetch_and_store_data ticker period storage_target gcs_bucket w)) = blobs w \<and>
         dirs (snd (fetch_and_store_data ticker period storage_target gcs_bucket w)) = dirs w \<and>
         trace (snd (fetch_and_store_data ticker period storage_target gcs_bucket w))
           = trace w @ [Download ticker period] \<and>
         stdout (snd (fetch_and_store_data ticker period storage_target gcs_bucket w))
           = stdout w @ [msg_fetching ticker storage_target, msg_no_data ticker]"
  using assms by (simp add: fetch_empty)

text \<open>
  Claim C9. When the download raises, the function returns \<open>None\<close> (the exception is
  caught), prints the message of the exception, has attempted exactly one download and
  nothing else, and leaves the storage as it was.
\<close>

theorem source_failure_is_reported:
  assumes "yf_download w ticker period = Raised e"
  shows "fst (fetch_and_store_data ticker period storage_target gcs_bucket w) = None \<and>
         stdout (snd (fetch_and_store_data ticker period storage_target gcs_bucket w))
           = stdout w @ [msg_fetching ticker storage_target, msg_fetch_error e] \<and>
         trace (snd (fetch_and_store_data ticker period storage_target gcs_bucket w))
           = trace w @ [Download ticker period] \<and>
         files (snd (fetch_and_store_data ticker period storage_target gcs_bucket w)) = files w \<and>
         blobs (snd (fetch_and_store_data ticker period storage_target gcs_bucket w)) = blobs w \<and>
         dirs (snd (fetch_and_store_data ticker period storage_target gcs_bucket w)) = dirs w"
  using assms by (simp add: fetch_raised)



section \<open>The storage loop\<close>

lemmas store_ops =
  store_row_def save_data_locally_def upload_data_to_gcs_def makedirs_def write_file_def
  upload_from_string_def file_date_def

lemma store_row_faults:
  "store_row t s b cs r w = (res, w1) \<Longrightarrow> faults w1 = faults w"
  by (auto simp: store_ops Let_def split: if_splits option.splits)

lemma store_row_files_ok:
  "store_row t s b cs r w = (Ok u, w1) \<Longrightarrow>
   files w1 = files w \<or>
   files w1 = (files w)(local_path t (file_date r) \<mapsto> to_csv (day_df t cs r))"
  by (auto simp: store_ops Let_def split: if_splits option.splits)

lemma store_row_files_raised:
  "store_row t s b cs r w = (Raised e, w1) \<Longrightarrow>
   files w1 = files w \<or>
   files w1 = (files w)(local_path t (file_date r) \<mapsto>
                 take (progress w (WriteFile (local_path t (file_date r)))) (to_csv (day_df t cs r)))"
  by (auto simp: store_ops Let_def split: if_splits option.splits)

lemma store_row_files:
  assumes "store_row t s b cs r w = (res, w1)"
  shows "files w1 = files w \<or>
   (\<exists>n. files w1 = (files w)(local_path t (file_date r) \<mapsto> take n (to_csv (day_df t cs r))))"
proof (cases res)
  case (Ok u)
  from store_row_files_ok[OF assms[unfolded Ok]]
  have "files w1 = files w \<or>
        files w1 = (files w)(local_path t (file_date r) \<mapsto>
                      take (length (to_csv (day_df t cs r))) (to_csv (day_df t cs r)))"
    by simp
  then show ?thesis by blast
next
  case (Raised e)
  from store_row_files_raised[OF assms[unfolded Raised]] show ?thesis by blast
qed

lemma store_row_files_other:
  assumes "store_row t s b cs r w = (res, w1)" and "p \<noteq> local_path t (file_date r)"
  shows "files w1 p = files w p"
  using store_row_files[OF assms(1)] assms(2) by auto

lemma store_row_blobs:
  "store_row t s b cs r w = (res, w1) \<Longrightarrow>
   blobs w1 = blobs w \<or>
   (\<exists>bucket. blobs w1 =
      (blobs w)((bucket, gcs_key t (file_date r)) \<mapsto> (to_csv (day_df t cs r), ''text/csv'')))"
  by (auto simp: store_ops Let_def split: if_splits option.splits)

lemma store_row_blobs_other:
  assumes "store_row t s b cs r w = (res, w1)" and "snd k \<noteq> gcs_key t (file_date r)"
  shows "blobs w1 k = blobs w k"
  using store_row_blobs[OF assms(1)] assms(2) by (cases k) auto


lemma store_row_ok:
  assumes "\<forall>e\<in>set (row_events t s b r). faults w e = None"
  shows "\<exists>w1. store_row t s b cs r w = (Ok (), w1) \<and> faults w1 = faults w \<and>
           trace w1 = trace w @ row_events t s b r \<and>
           dom (files w1) =
             (if s = ''local'' then insert (local_path t (file_date r)) (dom (files w))
              else dom (files w)) \<and>
           dom (blobs w1) =
             (if s \<noteq> ''local'' \<and> s = ''gcp'' \<and> b \<noteq> None
              then insert (the b, gcs_key t (file_date r)) (dom (blobs w))
              else dom (blobs w))"
  using assms by (auto simp: store_ops row_events_def Let_def)

lemma store_rows_ok:
  assumes "\<forall>r\<in>set rs. \<forall>e\<in>set (row_events t s b r). faults w e = None"
  shows "\<exists>w1. store_rows t s b cs rs w = (Ok (), w1) \<and> faults w1 = faults w \<and>
           trace w1 = trace w @ concat (map (row_events t s b) rs) \<and>
           dom (files w1) =
             (if s = ''local'' then dom (files w) \<union> (\<lambda>r. local_path t (file_date r)) ` set rs
              else dom (files w)) \<and>
           dom (blobs w1) =
             (if s \<noteq> ''local'' \<and> s = ''gcp'' \<and> b \<noteq> None
              then dom (blobs w) \<union> (\<lambda>r. (the b, gcs_key t (file_date r))) ` set rs
              else dom (blobs w))"
  using assms
proof (induction rs arbitrary: w)
  case Nil
  then show ?case by simp
next
  case (Cons r rs)
  from Cons.prems have "\<forall>e\<in>set (row_events t s b r). faults w e = None" by simp
  from store_row_ok[OF this, of cs] obtain w1 where
    w1: "store_row t s b cs r w = (Ok (), w1)" "faults w1 = faults w"
      "trace w1 = trace w @ row_events t s b r"
      "dom (files w1) =
         (if s = ''local'' then insert (local_path t (file_date r)) (dom (files w))
          else dom (files w))"
      "dom (blobs w1) =
         (if s \<noteq> ''local'' \<and> s = ''gcp'' \<and> b \<noteq> None
          then insert (the b, gcs_key t (file_date r)) (dom (blobs w))
          else dom (blobs w))"
    by blast
  have "\<forall>r\<in>set rs. \<forall>e\<in>set (row_events t s b r). faults w1 e = None"
    using Cons.prems w1(2) by simp
  from Cons.IH[OF this] obtain w2 where
    w2: "store_rows t s b cs rs w1 = (Ok (), w2)" "faults w2 = faults w1"
      "trace w2 = trace w1 @ concat (map (row_events t s b) rs)"
      "dom (files w2) =
         (if s = ''local'' then dom (files w1) \<union> (\<lambda>r. local_path t (file_date r)) ` set rs
          else dom (files w1))"
      "dom (blobs w2) =
         (if s \<noteq> ''local'' \<and> s = ''gcp'' \<and> b \<noteq> None
          then dom (blobs w1) \<union> (\<lambda>r. (the b, gcs_key t (file_date r))) ` set rs
          else dom (blobs w1))"
    by blast
  have "store_rows t s b cs (r # rs) w = (Ok (), w2)" using w1(1) w2(1) by simp
  moreover have "faults w2 = faults w" using w1(2) w2(2) by simp
  moreover have "trace w2 = trace w @ concat (map (row_events t s b) (r # rs))"
    using w1(3) w2(3) by simp
  moreover have "dom (files w2) =
      (if s = ''local'' then dom (files w) \<union> (\<lambda>r. local_path t (file_date r)) ` set (r # rs)
       else dom (files w))"
    using w1(4) w2(4) by auto
  moreover have "dom (blobs w2) =
      (if s \<noteq> ''local'' \<and> s = ''gcp'' \<and> b \<noteq> None
       then dom (blobs w) \<union> (\<lambda>r. (the b, gcs_key t (file_date r))) ` set (r # rs)
       else dom (blobs w))"
    using w1(5) w2(5) by auto
  ultimately show ?case by blast
qed


lemma store_rows_files_other:
  "store_rows t s b cs rs w = (res, w1) \<Longrightarrow>
   p \<notin> (\<lambda>r. local_path t (file_date r)) ` set rs \<Longrightarrow> files w1 p = files w p"
proof (induction rs arbitrary: w)
  case Nil
  then show ?case by simp
next
  case (Cons r rs)
  obtain res0 w0 where r0: "store_row t s b cs r w = (res0, w0)" by (cases "store_row t s b cs r w")
  from Cons.prems(2) have ne: "p \<noteq> local_path t (file_date r)"
    and rest: "p \<notin> (\<lambda>r. local_path t (file_date r)) ` set rs"
    by auto
  have step: "files w0 p = files w p" using r0 ne by (rule store_row_files_other)
  show ?case
  proof (cases res0)
    case (Raised e)
    with r0 Cons.prems(1) have "w1 = w0" by simp
    with step show ?thesis by simp
  next
    case (Ok u)
    with r0 Cons.prems(1) have "store_rows t s b cs rs w0 = (res, w1)" by simp
    from Cons.IH[OF this rest] step show ?thesis by simp
  qed
qed


lemma store_rows_blobs_other:
  "store_rows t s b cs rs w = (res, w1) \<Longrightarrow>
   snd k \<notin> (\<lambda>r. gcs_key t (file_date r)) ` set rs \<Longrightarrow> blobs w1 k = blobs w k"
proof (induction rs arbitrary: w)
  case Nil
  then show ?case by simp
next
  case (Cons r rs)
  obtain res0 w0 where r0: "store_row t s b cs r w = (res0, w0)" by (cases "store_row t s b cs r w")
  from Cons.prems(2) have ne: "snd k \<noteq> gcs_key t (file_date r)"
    and rest: "snd k \<notin> (\<lambda>r. gcs_key t (file_date r)) ` set rs"
    by auto
  have step: "blobs w0 k = blobs w k" using r0 ne by (rule store_row_blobs_other)
  show ?case
  proof (cases res0)
    case (Raised e)
    with r0 Cons.prems(1) have "w1 = w0" by simp
    with step show ?thesis by simp
  next
    case (Ok u)
    with r0 Cons.prems(1) have "store_rows t s b cs rs w0 = (res, w1)" by simp
    from Cons.IH[OF this rest] step show ?thesis by simp
  qed
qed

text \<open>
  After a loop that ends without an exception, the path (or object name) of every row
  holds the lines of a row with that path (the last one, when dates repeat).
\<close>

lemma store_row_local_ok:
  "store_row t ''local'' b cs r w = (Ok u, w1) \<Longrightarrow>
   files w1 = (files w)(local_path t (file_date r) \<mapsto> to_csv (day_df t cs r))"
  by (auto simp: store_ops Let_def split: if_splits option.splits)

lemma store_row_gcp_ok:
  "store_row t ''gcp'' (Some bucket) cs r w = (Ok u, w1) \<Longrightarrow>
   blobs w1 = (blobs w)((bucket, gcs_key t (file_date r)) \<mapsto> (to_csv (day_df t cs r), ''text/csv''))"
  by (auto simp: store_ops Let_def split: if_splits option.splits)

lemma store_rows_local_holds:
  "store_rows t ''local'' b cs rs w = (Ok u, w1) \<Longrightarrow> r \<in> set rs \<Longrightarrow>
   \<exists>r'\<in>set rs. file_date r' = file_date r \<and>
      files w1 (local_path t (file_date r)) = Some (to_csv (day_df t cs r'))"
proof (induction rs arbitrary: w r)
  case Nil
  then show ?case by simp
next
  case (Cons r0 rs)
  obtain res0 w0 where r0: "store_row t ''local'' b cs r0 w = (res0, w0)"
    by (cases "store_row t ''local'' b cs r0 w")
  from r0 Cons.prems(1) obtain u0 where ok: "res0 = Ok u0"
    by (cases res0) simp_all
  from r0 ok Cons.prems(1) have rest: "store_rows t ''local'' b cs rs w0 = (Ok u, w1)" by simp
  show ?case
  proof (cases "\<exists>r2\<in>set rs. file_date r2 = file_date r")
    case True
    then obtain r2 where r2: "r2 \<in> set rs" "file_date r2 = file_date r" by blast
    from Cons.IH[OF rest r2(1)] r2(2) show ?thesis by auto
  next
    case False
    with Cons.prems(2) have eq: "r = r0" by auto
    have "local_path t (file_date r) \<notin> (\<lambda>x. local_path t (file_date x)) ` set rs"
    proof
      assume "local_path t (file_date r) \<in> (\<lambda>x. local_path t (file_date x)) ` set rs"
      then obtain x where x: "x \<in> set rs" "local_path t (file_date r) = local_path t (file_date x)"
        by blast
      have "CHR ''/'' # ''date='' @ file_date r @ ''.csv'' = CHR ''/'' # ''date='' @ file_date x @ ''.csv''
            \<or> ''date='' @ file_date r @ ''.csv'' = ''date='' @ file_date x @ ''.csv''"
        using x(2) by (auto simp: local_path_def path_join_def join2_def split: if_splits)
      then have "file_date x = file_date r" by auto
      with False x(1) show False by blast
    qed
    with rest have "files w1 (local_path t (file_date r)) = files w0 (local_path t (file_date r))"
      by (rule store_rows_files_other)
    also have "\<dots> = Some (to_csv (day_df t cs r0))"
      using store_row_local_ok[OF r0[unfolded ok]] eq by simp
    finally show ?thesis using eq by auto
  qed
qed

lemma store_rows_gcp_holds:
  "store_rows t ''gcp'' (Some bucket) cs rs w = (Ok u, w1) \<Longrightarrow> r \<in> set rs \<Longrightarrow>
   \<exists>r'\<in>set rs. file_date r' = file_date r \<and>
      blobs w1 (bucket, gcs_key t (file_date r)) = Some (to_csv (day_df t cs r'), ''text/csv'')"
proof (induction rs arbitrary: w r)
  case Nil
  then show ?case by simp
next
  case (Cons r0 rs)
  obtain res0 w0 where r0: "store_row t ''gcp'' (Some bucket) cs r0 w = (res0, w0)"
    by (cases "store_row t ''gcp'' (Some bucket) cs r0 w")
  from r0 Cons.prems(1) obtain u0 where ok: "res0 = Ok u0"
    by (cases res0) simp_all
  from r0 ok Cons.prems(1) have rest: "store_rows t ''gcp'' (Some bucket) cs rs w0 = (Ok u, w1)"
    by simp
  show ?case
  proof (cases "\<exists>r2\<in>set rs. file_date r2 = file_date r")
    case True
    then obtain r2 where r2: "r2 \<in> set rs" "file_date r2 = file_date r" by blast
    from Cons.IH[OF rest r2(1)] r2(2) show ?thesis by auto
  next
    case False
    with Cons.prems(2) have eq: "r = r0" by auto
    have "snd (bucket, gcs_key t (file_date r)) \<notin> (\<lambda>x. gcs_key t (file_date x)) ` set rs"
      using False by (auto simp: gcs_key_def)
    with rest have "blobs w1 (bucket, gcs_key t (file_date r)) = blobs w0 (bucket, gcs_key t (file_date r))"
      by (rule store_rows_blobs_other)
    also have "\<dots> = Some (to_csv (day_df t cs r0), ''text/csv'')"
      using store_row_gcp_ok[OF r0[unfolded ok]] eq by simp
    finally show ?thesis using eq by auto
  qed
qed

section \<open>Properties of ingestion\<close>

lemma to_csv_day_df: "to_csv (day_df t cs r) = partition_lines t cs r"
  by (cases cs) (simp_all add: to_csv_def day_df_def partition_lines_def rename_label_def)


text \<open>
  Claim C7. When the operations on the path (or on the object name) do not raise, two
  writes of the same ticker and file date both succeed, by either backend, and leave
  the storage as it was except at that one path or object name, which holds the content
  of the second write.
\<close>

theorem second_write_wins:
  "(faults w (MakeDirs (dirname (local_path ticker fd))) = None \<and>
    faults w (OpenFile (local_path ticker fd)) = None \<and>
    faults w (WriteFile (local_path ticker fd)) = None \<longrightarrow>
      fst (save_data_locally df1 ticker fd w) = Ok () \<and>
      fst (save_data_locally df2 ticker fd (snd (save_data_locally df1 ticker fd w))) = Ok () \<and>
      files (snd (save_data_locally df2 ticker fd (snd (save_data_locally df1 ticker fd w))))
        = (files w)(local_path ticker fd \<mapsto> to_csv df2) \<and>
      blobs (snd (save_data_locally df2 ticker fd (snd (save_data_locally df1 ticker fd w))))
        = blobs w) \<and>
   (faults w (UploadBlob bucket (gcs_key ticker fd)) = None \<longrightarrow>
      fst (upload_data_to_gcs df1 ticker fd bucket w) = Ok () \<and>
      fst (upload_data_to_gcs df2 ticker fd bucket
             (snd (upload_data_to_gcs df1 ticker fd bucket w))) = Ok () \<and>
      blobs (snd (upload_data_to_gcs df2 ticker fd bucket
                    (snd (upload_data_to_gcs df1 ticker fd bucket w))))
        = (blobs w)((bucket, gcs_key ticker fd) \<mapsto> (to_csv df2, ''text/csv'')) \<and>
      files (snd (upload_data_to_gcs df2 ticker fd bucket
                    (snd (upload_data_to_gcs df1 ticker fd bucket w))))
        = files w)"
  by (simp add: save_data_locally_def upload_data_to_gcs_def makedirs_def write_file_def
        upload_from_string_def Let_def)

text \<open>
  Claim C8. For a non-empty fetched frame, when none of the storage operations of its
  rows raises, the run returns the whole fetched frame: the same columns behind the new
  first column \<open>Date\<close>, and for every fetched row, in order, the line of its date and
  its values. After the download it attempts exactly the operations of each row, in
  order, and the files (or objects) present afterwards are the earlier ones and one per
  row, each holding the header and the one data line of a row of that date.
\<close>

theorem all_rows_written_and_returned:
  assumes "yf_download w ticker period = Ok sd" and "\<not> empty_frame sd"
    and "\<forall>r\<in>set (rows sd). \<forall>e\<in>set (row_events ticker storage_target gcs_bucket r). faults w e = None"
    and "w' = snd (fetch_and_store_data ticker period storage_target gcs_bucket w)"
  shows "fst (fetch_and_store_data ticker period storage_target gcs_bucket w)
           = Some \<lparr>cols = (case columns sd of
                             Flat fs \<Rightarrow> Flat (Date # map Field fs)
                           | TwoLevel ps \<Rightarrow>
                               TwoLevel ((Date, []) # map (\<lambda>q. (Field (fst q), snd q)) ps)),
                   body = map (\<lambda>r. TS (fst r) # map Num (snd r)) (rows sd)\<rparr> \<and>
         trace w' = trace w @ Download ticker period
                      # concat (map (row_events ticker storage_target gcs_bucket) (rows sd)) \<and>
         (storage_target = ''local'' \<longrightarrow>
            dom (files w') = dom (files w) \<union> (\<lambda>r. local_path ticker (file_date r)) ` set (rows sd) \<and>
            (\<forall>r\<in>set (rows sd). \<exists>r'\<in>set (rows sd). file_date r' = file_date r \<and>
               files w' (local_path ticker (file_date r))
                 = Some (partition_lines ticker (columns sd) r'))) \<and>
         (storage_target = ''gcp'' \<and> gcs_bucket \<noteq> None \<longrightarrow>
            dom (blobs w') = dom (blobs w)
               \<union> (\<lambda>r. (the gcs_bucket, gcs_key ticker (file_date r))) ` set (rows sd) \<and>
            (\<forall>r\<in>set (rows sd). \<exists>r'\<in>set (rows sd). file_date r' = file_date r \<and>
               blobs w' (the gcs_bucket, gcs_key ticker (file_date r))
                 = Some (partition_lines ticker (columns sd) r', ''text/csv'')))"
proof -
  let ?w0 = "loop_start ticker period storage_target (length (rows sd)) w"
  have "\<forall>r\<in>set (rows sd). \<forall>e\<in>set (row_events ticker storage_target gcs_bucket r). faults ?w0 e = None"
    using assms(3) by simp
  from store_rows_ok[OF this, of "columns sd"] obtain w1 where
    w1: "store_rows ticker storage_target gcs_bucket (columns sd) (rows sd) ?w0 = (Ok (), w1)"
      "trace w1 = trace ?w0 @ concat (map (row_events ticker storage_target gcs_bucket) (rows sd))"
      "dom (files w1) =
         (if storage_target = ''local''
          then dom (files ?w0) \<union> (\<lambda>r. local_path ticker (file_date r)) ` set (rows sd)
          else dom (files ?w0))"
      "dom (blobs w1) =
         (if storage_target \<noteq> ''local'' \<and> storage_target = ''gcp'' \<and> gcs_bucket \<noteq> None
          then dom (blobs ?w0) \<union> (\<lambda>r. (the gcs_bucket, gcs_key ticker (file_date r))) ` set (rows sd)
          else dom (blobs ?w0))"
    by blast
  have run: "fetch_and_store_data ticker period storage_target gcs_bucket w
               = (Some (reset_index sd), print msg_complete w1)"
    using assms(1,2) w1(1) by (rule fetch_loop_ok)
  have loc: "\<exists>r'\<in>set (rows sd). file_date r' = file_date r \<and>
               files w1 (local_path ticker (file_date r))
                 = Some (partition_lines ticker (columns sd) r')"
    if "storage_target = ''local''" and "r \<in> set (rows sd)" for r
    using store_rows_local_holds[OF w1(1)[unfolded that(1)] that(2)]
    unfolding to_csv_day_df .
  have gcp: "\<exists>r'\<in>set (rows sd). file_date r' = file_date r \<and>
               blobs w1 (the gcs_bucket, gcs_key ticker (file_date r))
                 = Some (partition_lines ticker (columns sd) r', ''text/csv'')"
    if "storage_target = ''gcp''" and "gcs_bucket \<noteq> None" and "r \<in> set (rows sd)" for r
  proof -
    from that(2) obtain bucket where b: "gcs_bucket = Some bucket" by auto
    from store_rows_gcp_holds[OF w1(1)[unfolded that(1) b] that(3)] show ?thesis
      unfolding to_csv_day_df b by simp
  qed
  have fr: "fst (fetch_and_store_data ticker period storage_target gcs_bucket w)
           = Some \<lparr>cols = (case columns sd of
                             Flat fs \<Rightarrow> Flat (Date # map Field fs)
                           | TwoLevel ps \<Rightarrow>
                               TwoLevel ((Date, []) # map (\<lambda>q. (Field (fst q), snd q)) ps)),
                   body = map (\<lambda>r. TS (fst r) # map Num (snd r)) (rows sd)\<rparr>"
    unfolding run reset_index_explicit[symmetric] by simp
  have w': "files w' = files w1" "blobs w' = blobs w1" "trace w' = trace w1"
    unfolding assms(4) run by simp_all
  have tr: "trace w' = trace w @ Download ticker period
                      # concat (map (row_events ticker storage_target gcs_bucket) (rows sd))"
    unfolding w' using w1(2) by simp
  have dl: "dom (files w') = dom (files w) \<union> (\<lambda>r. local_path ticker (file_date r)) ` set (rows sd)"
    if "storage_target = ''local''"
    unfolding w' using w1(3) that by simp
  have dg: "dom (blobs w') = dom (blobs w)
               \<union> (\<lambda>r. (the gcs_bucket, gcs_key ticker (file_date r))) ` set (rows sd)"
    if "storage_target = ''gcp''" and "gcs_bucket \<noteq> None"
    unfolding w' using w1(4) that by simp
  show ?thesis
  proof (intro conjI impI ballI)
    show "fst (fetch_and_store_data ticker period storage_target gcs_bucket w)
           = Some \<lparr>cols = (case columns sd of
                             Flat fs \<Rightarrow> Flat (Date # map Field fs)
                           | TwoLevel ps \<Rightarrow>
                               TwoLevel ((Date, []) # map (\<lambda>q. (Field (fst q), snd q)) ps)),
                   body = map (\<lambda>r. TS (fst r) # map Num (snd r)) (rows sd)\<rparr>"
      by (rule fr)
    show "trace w' = trace w @ Download ticker period
                      # concat (map (row_events ticker storage_target gcs_bucket) (rows sd))"
      by (rule tr)
  next
    assume "storage_target = ''local''"
    then show "dom (files w') = dom (files w) \<union> (\<lambda>r. local_path ticker (file_date r)) ` set (rows sd)"
      by (rule dl)
  next
    fix r assume "storage_target = ''local''" and "r \<in> set (rows sd)"
    then show "\<exists>r'\<in>set (rows sd). file_date r' = file_date r \<and>
               files w' (local_path ticker (file_date r))
                 = Some (partition_lines ticker (columns sd) r')"
      unfolding w' by (rule loc)
  next
    assume "storage_target = ''gcp'' \<and> gcs_bucket \<noteq> None"
    then show "dom (blobs w') = dom (blobs w)
               \<union> (\<lambda>r. (the gcs_bucket, gcs_key ticker (file_date r))) ` set (rows sd)"
      using dg by blast
  next
    fix r assume "storage_target = ''gcp'' \<and> gcs_bucket \<noteq> None" and "r \<in> set (rows sd)"
    then show "\<exists>r'\<in>set (rows sd). file_date r' = file_date r \<and>
               blobs w' (the gcs_bucket, gcs_key ticker (file_date r))
                 = Some (partition_lines ticker (columns sd) r', ''text/csv'')"
      unfolding w' using gcp by blast
  qed
qed


section \<open>The front end\<close>

lemma then_do_Ok [simp]: "then_do (Ok x, w) k = k x w"
  by (simp add: then_do_def)

lemma then_do_Raised [simp]: "then_do (Raised e, w) k = (Raised e, w)"
  by (simp add: then_do_def)

lemma then_do_eq_Ok:
  assumes "then_do m k = (Ok y, w')"
  shows "\<exists>x w1. m = (Ok x, w1) \<and> k x w1 = (Ok y, w')"
proof -
  obtain r wa where m: "m = (r, wa)" by (cases m)
  show ?thesis using assms unfolding m by (cases r) simp_all
qed

lemma same_store_refl [simp]: "same_store w w"
  by (simp add: same_store_def)

lemma same_store_trans: "same_store w w1 \<Longrightarrow> same_store w1 w2 \<Longrightarrow> same_store w w2"
  by (simp add: same_store_def)

lemma same_store_print [simp]: "same_store w (print s w1) = same_store w w1"
  by (simp add: same_store_def)

lemma same_store_print_left [simp]: "same_store (print s w) w1 = same_store w w1"
  by (simp add: same_store_def)

lemma get_user_choice_keeps: "get_user_choice pr opts w = (res, w1) \<Longrightarrow> same_store w w1"
  by (auto simp: get_user_choice_def same_store_def split: prod.splits)

lemma input_keeps: "input pr w = (res, w1) \<Longrightarrow> same_store w w1"
  by (auto simp: input_def Let_def same_store_def split: list.splits)

lemma menu_keeps: "same_store (foldl (\<lambda>wx (key, val). print (f key val) wx) w1 xs) w2 = same_store w1 w2"
  by (induction xs arbitrary: w1) (simp_all add: case_prod_beta)

lemma get_analysis_parameters_keeps:
  assumes "get_analysis_parameters w = (Ok tp, w1)"
  shows "same_store w w1"
proof -
  from then_do_eq_Ok[OF assms[unfolded get_analysis_parameters_def Let_def]]
  obtain line w3 where
    i: "input ''Enter ticker symbol: ''
          (print ''Formats: NSE -> RELIANCE.NS | BSE -> 500325.BO | MF -> AXISBLUECHIP.NS''
             (print ''\<newline>--- Asset & Period Selection ---'' w)) = (Ok line, w3)"
    and rest: "then_do (get_user_choice ''Enter choice (1-6): '' (DictKeys (map fst period_options))
                 (foldl (\<lambda>wx (key, val). print (''  '' @ key @ '': '' @ val) wx)
                    (print ''\<newline>Select time period:'' w3) period_map_display))
              (\<lambda>choice w6. case map_of period_options choice of
                     None \<Rightarrow> (Raised (repr_str choice), w6)
                   | Some period \<Rightarrow> (Ok (strip (upper_str line), period), w6)) = (Ok tp, w1)"
    by blast
  from then_do_eq_Ok[OF rest] obtain choice w6 where
    c: "get_user_choice ''Enter choice (1-6): '' (DictKeys (map fst period_options))
                 (foldl (\<lambda>wx (key, val). print (''  '' @ key @ '': '' @ val) wx)
                    (print ''\<newline>Select time period:'' w3) period_map_display) = (Ok choice, w6)"
    and fin: "(case map_of period_options choice of
                     None \<Rightarrow> (Raised (repr_str choice), w6)
                   | Some period \<Rightarrow> (Ok (strip (upper_str line), period), w6)) = (Ok tp, w1)"
    by blast
  have "w1 = w6" using fin by (cases "map_of period_options choice") simp_all
  moreover have "same_store w w3" using input_keeps[OF i] by simp
  moreover have "same_store w3 w6" using get_user_choice_keeps[OF c] by (simp add: menu_keeps)
  ultimately show ?thesis using same_store_trans by blast
qed

lemma read_inputs_Ok:
  assumes "read_inputs w = (Ok (st, pt, t, p), w3)"
  shows "\<exists>w1 w2.
     get_user_choice ''Select storage target (local/gcp): '' (PyList [''local'', ''gcp'']) w = (Ok st, w1) \<and>
     get_user_choice ''Select processing target (local/databricks): ''
        (PyList [''local'', ''databricks'']) w1 = (Ok pt, w2) \<and>
     get_analysis_parameters w2 = (Ok (t, p), w3)"
proof -
  from then_do_eq_Ok[OF assms[unfolded read_inputs_def]] obtain st' w1 where
    a: "get_user_choice ''Select storage target (local/gcp): '' (PyList [''local'', ''gcp'']) w = (Ok st', w1)"
    and r1: "then_do (get_user_choice ''Select processing target (local/databricks): ''
                (PyList [''local'', ''databricks'']) w1)
       (\<lambda>processing_target w2.
     then_do (get_analysis_parameters w2)
       (\<lambda>(ticker, period) w3. (Ok (st', processing_target, ticker, period), w3))) = (Ok (st, pt, t, p), w3)"
    by blast
  from then_do_eq_Ok[OF r1] obtain pt' w2 where
    b: "get_user_choice ''Select processing target (local/databricks): ''
                (PyList [''local'', ''databricks'']) w1 = (Ok pt', w2)"
    and r2: "then_do (get_analysis_parameters w2)
       (\<lambda>(ticker, period) w3. (Ok (st', pt', ticker, period), w3)) = (Ok (st, pt, t, p), w3)"
    by blast
  from then_do_eq_Ok[OF r2] obtain tp w3' where
    c: "get_analysis_parameters w2 = (Ok tp, w3')"
    and r3: "(case tp of (ticker, period) \<Rightarrow> \<lambda>w3. (Ok (st', pt', ticker, period), w3)) w3'
               = (Ok (st, pt, t, p), w3)"
    by blast
  from r3 have "st' = st" "pt' = pt" "tp = (t, p)" "w3' = w3" by (cases tp; simp)+
  with a b c show ?thesis by blast
qed

lemma read_inputs_keeps:
  assumes "read_inputs w = (Ok (st, pt, t, p), w3)"
  shows "same_store w w3"
proof -
  from read_inputs_Ok[OF assms] obtain w1 w2 where
    a: "get_user_choice ''Select storage target (local/gcp): '' (PyList [''local'', ''gcp'']) w = (Ok st, w1)"
    and b: "get_user_choice ''Select processing target (local/databricks): ''
        (PyList [''local'', ''databricks'']) w1 = (Ok pt, w2)"
    and c: "get_analysis_parameters w2 = (Ok (t, p), w3)"
    by blast
  have "same_store w w1" using a by (rule get_user_choice_keeps)
  moreover have "same_store w1 w2" using b by (rule get_user_choice_keeps)
  moreover have "same_store w2 w3" using c by (rule get_analysis_parameters_keeps)
  ultimately show ?thesis using same_store_trans by blast
qed

lemma main_after_inputs:
  assumes "read_inputs w = (Ok (storage_target, processing_target, ticker, period), w3)"
  shows "main G plot emit w =
     (if ticker = [] then (Ok (), print NO_TICKER w3)
      else if storage_target = ''gcp'' \<and> G = PLACEHOLDER_BUCKET then (Ok (), print CONFIG_ERROR w3)
      else
        (let (gcs_bucket, w4) =
               (if storage_target = ''gcp'' then get_gcs_bucket G w3 else (None, w3))
         in if storage_target = ''gcp'' \<and> gcs_bucket = None then (Ok (), w4)
            else
              (let (fetched_data, w5) =
                     fetch_and_store_data ticker period storage_target gcs_bucket w4
               in if processing_target = ''local''
                    then process_data_locally plot fetched_data ticker period w5
                  else if processing_target = ''databricks'' then emit ticker w5
                  else (Ok (), w5))))"
proof -
  from read_inputs_Ok[OF assms] obtain w1 w2 where
    "get_user_choice ''Select storage target (local/gcp): '' (PyList [''local'', ''gcp'']) w
       = (Ok storage_target, w1)"
    "get_user_choice ''Select processing target (local/databricks): ''
        (PyList [''local'', ''databricks'']) w1 = (Ok processing_target, w2)"
    "get_analysis_parameters w2 = (Ok (ticker, period), w3)"
    by blast
  then show ?thesis unfolding main_def by (simp only: then_do_Ok prod.case)
qed

text \<open>
  Claim C3, as amended. When the storage target chosen is \<open>gcp\<close> and the bucket name
  is still the placeholder, \<^verbatim>\<open>main\<close> stops right after the prompts, before any
  download or storage operation: it prints the configuration error when a ticker was
  entered, and the missing-ticker message when the ticker is empty.
\<close>

theorem placeholder_bucket_stops_run:
  assumes "read_inputs w = (Ok (''gcp'', processing_target, ticker, period), w3)"
  shows "main PLACEHOLDER_BUCKET plot_stock_performance provide_databricks_instructions w
           = (Ok (), print (if ticker = [] then NO_TICKER else CONFIG_ERROR) w3) \<and>
         trace w3 = trace w \<and> files w3 = files w \<and> blobs w3 = blobs w \<and> dirs w3 = dirs w"
proof -
  have "same_store w w3" using assms by (rule read_inputs_keeps)
  then show ?thesis unfolding main_after_inputs[OF assms] same_store_def by simp
qed

section \<open>Example runs, evaluated\<close>




text \<open>A source that answers with a frame without rows.\<close>

theorem empty_series_is_no_data_witness:
  "fst (fetch_and_store_data ''NOPE'' ''1mo'' ''local'' None no_data_world) = None \<and>
   files (snd (fetch_and_store_data ''NOPE'' ''1mo'' ''local'' None no_data_world)) = Map.empty \<and>
   blobs (snd (fetch_and_store_data ''NOPE'' ''1mo'' ''local'' None no_data_world)) = Map.empty"
proof -
  have h1: "yf_download no_data_world ''NOPE'' ''1mo'' = Ok \<lparr>columns = Flat [Open, Close], rows = []\<rparr>"
    by (simp add: no_data_world_def example_world_def serves_def)
  have h2: "empty_frame \<lparr>columns = Flat [Open, Close], rows = ([] :: (date \<times> int list) list)\<rparr>"
    by (simp add: empty_frame_def)
  have "files no_data_world = Map.empty" "blobs no_data_world = Map.empty"
    by (simp_all add: no_data_world_def example_world_def)
  with empty_series_is_no_data[OF h1 h2, of "''local''" None] show ?thesis by simp
qed

text \<open>A source that raises.\<close>

theorem source_failure_is_reported_witness:
  "fst (fetch_and_store_data ''TEST.NS'' ''1mo'' ''local'' None offline_world) = None \<and>
   stdout (snd (fetch_and_store_data ''TEST.NS'' ''1mo'' ''local'' None offline_world))
     = [msg_fetching ''TEST.NS'' ''local'', ''An error occurred during data fetch: connection refused''] \<and>
   trace (snd (fetch_and_store_data ''TEST.NS'' ''1mo'' ''local'' None offline_world))
     = [Download ''TEST.NS'' ''1mo'']"
proof -
  have h: "yf_download offline_world ''TEST.NS'' ''1mo'' = Raised ''connection refused''"
    by (simp add: offline_world_def example_world_def source_down_def)
  have "stdout offline_world = []" "trace offline_world = []"
    by (simp_all add: offline_world_def example_world_def)
  with source_failure_is_reported[OF h, of "''local''" None] show ?thesis
    by (simp add: msg_fetch_error_def)
qed


lemmas front_defs =
  main_def read_inputs_def get_user_choice_def get_analysis_parameters_def input_def
  then_do_def strip_def lower_str_def upper_str_def lower_char_def upper_char_def is_space_def
  period_options_def period_map_display_def typed_world_def example_world_def print_def
  PLACEHOLDER_BUCKET_def NO_TICKER_def CONFIG_ERROR_def repr_str_def Let_def

text \<open>
  Claim C3 as stated fails: with the target \<open>gcp\<close>, the placeholder bucket and an
  empty ticker, the run ends with the missing-ticker message and never prints the
  configuration error.
\<close>

theorem placeholder_bucket_counterexample:
  "fst (read_inputs (typed_world [''gcp'', ''local'', [], ''1'']))
     = Ok (''gcp'', ''local'', [], ''7d'') \<and>
   fst (main PLACEHOLDER_BUCKET no_plot no_emit (typed_world [''gcp'', ''local'', [], ''1''])) = Ok () \<and>
   last (stdout (snd (main PLACEHOLDER_BUCKET no_plot no_emit
                        (typed_world [''gcp'', ''local'', [], ''1''])))) = NO_TICKER \<and>
   CONFIG_ERROR \<notin> set (stdout (snd (main PLACEHOLDER_BUCKET no_plot no_emit
                                       (typed_world [''gcp'', ''local'', [], ''1'']))))"
  by (simp add: front_defs)

text \<open>The same choices with a ticker entered.\<close>

theorem placeholder_bucket_stops_run_witness:
  "fst (read_inputs (typed_world [''gcp'', ''local'', '' test.ns'', ''2'']))
     = Ok (''gcp'', ''local'', ''TEST.NS'', ''1mo'') \<and>
   main PLACEHOLDER_BUCKET no_plot no_emit (typed_world [''gcp'', ''local'', '' test.ns'', ''2''])
     = (Ok (), print CONFIG_ERROR (snd (read_inputs (typed_world [''gcp'', ''local'', '' test.ns'', ''2''])))) \<and>
   trace (snd (read_inputs (typed_world [''gcp'', ''local'', '' test.ns'', ''2'']))) = []"
proof -
  let ?w = "typed_world [''gcp'', ''local'', '' test.ns'', ''2'']"
  have f: "fst (read_inputs ?w) = Ok (''gcp'', ''local'', ''TEST.NS'', ''1mo'')"
    by (simp add: front_defs)
  then have h: "read_inputs ?w = (Ok (''gcp'', ''local'', ''TEST.NS'', ''1mo''), snd (read_inputs ?w))"
    by (simp add: prod_eq_iff)
  have t: "trace ?w = []" by (simp add: typed_world_def example_world_def)
  from placeholder_bucket_stops_run[OF h, of no_plot no_emit] f t show ?thesis by simp
qed

text \<open>
  Claim C5 as stated fails: for the ticker \<open>X/\<close> the local path has one separator
  where the stated form has two.
\<close>

theorem partition_path_counterexample:
  "valid_ticker ''X/'' \<and> valid_date (jan 2) \<and>
   local_path ''X/'' (strftime_ymd (jan 2))
     \<noteq> ''stock_data_lake/ticker='' @ ''X/'' @ ''/date='' @ strftime_ymd (jan 2) @ ''.csv''"
  by (simp add: valid_ticker_def normalize_ticker_def strip_def upper_str_def upper_char_def
        is_space_def valid_date_def days_in_month_def jan_def local_path_def path_join_def
        join2_def LOCAL_DATA_LAKE_FOLDER_def)

text \<open>The path and the object name of one partition.\<close>

theorem partition_path_form_witness:
  "valid_date (jan 2) \<and> \<not> ends_with_sep ''TEST.NS'' \<and>
   local_path ''TEST.NS'' (strftime_ymd (jan 2)) = ''stock_data_lake/ticker=TEST.NS/date=2024-01-02.csv'' \<and>
   dirname (local_path ''TEST.NS'' (strftime_ymd (jan 2))) = ''stock_data_lake/ticker=TEST.NS'' \<and>
   gcs_key ''TEST.NS'' (strftime_ymd (jan 2)) = ''ticker=TEST.NS/date=2024-01-02.csv''"
proof -
  have v: "valid_date (jan 2)" by (simp add: valid_date_def days_in_month_def jan_def)
  have e: "\<not> ends_with_sep ''TEST.NS''" by (simp add: ends_with_sep_def)
  have s: "strftime_ymd (jan 2) = ''2024-01-02''"
    by (simp add: strftime_ymd_def jan_def zfill2_def str_nat.simps digit_char_def)
  note th = partition_path_form[OF v, of "''TEST.NS''", unfolded s]
  from th have k: "gcs_key ''TEST.NS'' ''2024-01-02'' = ''ticker=TEST.NS/date=2024-01-02.csv''"
    by simp
  from th e have "local_path ''TEST.NS'' ''2024-01-02''
      = ''stock_data_lake/ticker='' @ ''TEST.NS'' @ ''/date='' @ ''2024-01-02'' @ ''.csv''"
    by blast
  then have l: "local_path ''TEST.NS'' ''2024-01-02''
      = ''stock_data_lake/ticker=TEST.NS/date=2024-01-02.csv''"
    by simp
  from th e have "dirname (local_path ''TEST.NS'' ''2024-01-02'')
      = ''stock_data_lake/ticker='' @ ''TEST.NS''"
    by blast
  then have d: "dirname (local_path ''TEST.NS'' ''2024-01-02'') = ''stock_data_lake/ticker=TEST.NS''"
    by simp
  show ?thesis unfolding s using v e k l d by (intro conjI)
qed



text \<open>The same partition written twice with different closing prices, by each backend.\<close>

theorem second_write_wins_witness:
  "files (snd (save_data_locally (day_df ''TEST.NS'' (Flat [Close]) (jan 2, [107])) ''TEST.NS'' ''2024-01-02''
          (snd (save_data_locally (day_df ''TEST.NS'' (Flat [Close]) (jan 2, [105])) ''TEST.NS'' ''2024-01-02''
                  healthy_world))))
     = [''stock_data_lake/ticker=TEST.NS/date=2024-01-02.csv''
          \<mapsto> [[Txt ''Date'', Txt ''Close'', Txt ''Ticker''], [TS (jan 2), Num 107, Txt ''TEST.NS'']]] \<and>
   blobs (snd (upload_data_to_gcs (day_df ''TEST.NS'' (Flat [Close]) (jan 2, [107])) ''TEST.NS'' ''2024-01-02'' ''lake''
          (snd (upload_data_to_gcs (day_df ''TEST.NS'' (Flat [Close]) (jan 2, [105])) ''TEST.NS'' ''2024-01-02''
                  ''lake'' healthy_world))))
     = [(''lake'', ''ticker=TEST.NS/date=2024-01-02.csv'')
          \<mapsto> ([[Txt ''Date'', Txt ''Close'', Txt ''Ticker''], [TS (jan 2), Num 107, Txt ''TEST.NS'']],
              ''text/csv'')]"
proof -
  let ?d1 = "day_df ''TEST.NS'' (Flat [Close]) (jan 2, [105::int])"
  let ?d2 = "day_df ''TEST.NS'' (Flat [Close]) (jan 2, [107::int])"
  have nf: "faults healthy_world e = None" for e
    by (simp add: healthy_world_def example_world_def no_faults_def)
  have e: "files healthy_world = Map.empty" "blobs healthy_world = Map.empty"
    by (simp_all add: healthy_world_def example_world_def)
  have c: "to_csv ?d2 = [[Txt ''Date'', Txt ''Close'', Txt ''Ticker''], [TS (jan 2), Num 107, Txt ''TEST.NS'']]"
    by (simp add: to_csv_def day_df_def)
  have p: "local_path ''TEST.NS'' ''2024-01-02'' = ''stock_data_lake/ticker=TEST.NS/date=2024-01-02.csv''"
    by (simp add: local_path_def path_join_def join2_def LOCAL_DATA_LAKE_FOLDER_def)
  have k: "gcs_key ''TEST.NS'' ''2024-01-02'' = ''ticker=TEST.NS/date=2024-01-02.csv''"
    by (simp add: gcs_key_def)
  note th = second_write_wins[of healthy_world "''TEST.NS''" "''2024-01-02''" ?d1 ?d2 "''lake''"]
  have n1: "faults healthy_world (MakeDirs (dirname (local_path ''TEST.NS'' ''2024-01-02''))) = None"
    and n2: "faults healthy_world (OpenFile (local_path ''TEST.NS'' ''2024-01-02'')) = None"
    and n3: "faults healthy_world (WriteFile (local_path ''TEST.NS'' ''2024-01-02'')) = None"
    and n4: "faults healthy_world (UploadBlob ''lake'' (gcs_key ''TEST.NS'' ''2024-01-02'')) = None"
    by (rule nf)+
  from th n1 n2 n3 have
    "files (snd (save_data_locally ?d2 ''TEST.NS'' ''2024-01-02''
                   (snd (save_data_locally ?d1 ''TEST.NS'' ''2024-01-02'' healthy_world))))
       = (files healthy_world)(local_path ''TEST.NS'' ''2024-01-02'' \<mapsto> to_csv ?d2)"
    by blast
  moreover from th n4 have
    "blobs (snd (upload_data_to_gcs ?d2 ''TEST.NS'' ''2024-01-02'' ''lake''
                   (snd (upload_data_to_gcs ?d1 ''TEST.NS'' ''2024-01-02'' ''lake'' healthy_world))))
       = (blobs healthy_world)((''lake'', gcs_key ''TEST.NS'' ''2024-01-02'') \<mapsto> (to_csv ?d2, ''text/csv''))"
    by blast
  ultimately show ?thesis unfolding e c p k by (intro conjI)
qed

text \<open>A run of three rows to the local disk in which nothing raises.\<close>

theorem all_rows_written_and_returned_witness:
  "fst (fetch_and_store_data ''TEST.NS'' ''1mo'' ''local'' None healthy_world)
     = Some \<lparr>cols = Flat [Date, Field Open, Field High, Field Low, Field Close, Field Volume],
             body = [[TS (jan 2), Num 100, Num 110, Num 95, Num 105, Num 1000],
                     [TS (jan 3), Num 105, Num 112, Num 101, Num 111, Num 1200],
                     [TS (jan 4), Num 111, Num 115, Num 108, Num 109, Num 900]]\<rparr> \<and>
   trace (snd (fetch_and_store_data ''TEST.NS'' ''1mo'' ''local'' None healthy_world))
     = [Download ''TEST.NS'' ''1mo'',
        MakeDirs ''stock_data_lake/ticker=TEST.NS'',
        OpenFile ''stock_data_lake/ticker=TEST.NS/date=2024-01-02.csv'',
        WriteFile ''stock_data_lake/ticker=TEST.NS/date=2024-01-02.csv'',
        MakeDirs ''stock_data_lake/ticker=TEST.NS'',
        OpenFile ''stock_data_lake/ticker=TEST.NS/date=2024-01-03.csv'',
        WriteFile ''stock_data_lake/ticker=TEST.NS/date=2024-01-03.csv'',
        MakeDirs ''stock_data_lake/ticker=TEST.NS'',
        OpenFile ''stock_data_lake/ticker=TEST.NS/date=2024-01-04.csv'',
        WriteFile ''stock_data_lake/ticker=TEST.NS/date=2024-01-04.csv''] \<and>
   dom (files (snd (fetch_and_store_data ''TEST.NS'' ''1mo'' ''local'' None healthy_world)))
     = {''stock_data_lake/ticker=TEST.NS/date=2024-01-02.csv'',
        ''stock_data_lake/ticker=TEST.NS/date=2024-01-03.csv'',
        ''stock_data_lake/ticker=TEST.NS/date=2024-01-04.csv''} \<and>
   files (snd (fetch_and_store_data ''TEST.NS'' ''1mo'' ''local'' None healthy_world))
      ''stock_data_lake/ticker=TEST.NS/date=2024-01-03.csv''
     = Some [[Txt ''Date'', Txt ''Open'', Txt ''High'', Txt ''Low'', Txt ''Close'', Txt ''Volume'', Txt ''Ticker''],
             [TS (jan 3), Num 105, Num 112, Num 101, Num 111, Num 1200, Txt ''TEST.NS'']]"
proof -
  have h1: "yf_download healthy_world ''TEST.NS'' ''1mo'' = Ok example_frame"
    by (simp add: healthy_world_def example_world_def serves_def)
  have h2: "\<not> empty_frame example_frame"
    by (simp add: empty_frame_def example_frame_def)
  have h3: "\<forall>r\<in>set (rows example_frame).
              \<forall>e\<in>set (row_events ''TEST.NS'' ''local'' None r). faults healthy_world e = None"
    by (simp add: healthy_world_def example_world_def no_faults_def)
  have e: "trace healthy_world = []" "files healthy_world = Map.empty"
    by (simp_all add: healthy_world_def example_world_def)
  have r: "rows example_frame = [(jan 2, [100, 110, 95, 105, 1000]),
              (jan 3, [105, 112, 101, 111, 1200]), (jan 4, [111, 115, 108, 109, 900])]"
    "columns example_frame = Flat [Open, High, Low, Close, Volume]"
    by (simp_all add: example_frame_def)
  have p: "local_path ''TEST.NS'' (file_date (jan n, vs))
             = ''stock_data_lake/ticker=TEST.NS/date='' @ strftime_ymd (jan n) @ ''.csv''"
    for n and vs :: "int list"
    by (simp add: local_path_def path_join_def join2_def LOCAL_DATA_LAKE_FOLDER_def file_date_def)
  have s: "strftime_ymd (jan 2) = ''2024-01-02''" "strftime_ymd (jan 3) = ''2024-01-03''"
    "strftime_ymd (jan 4) = ''2024-01-04''"
    by (simp_all add: strftime_ymd_def jan_def zfill2_def str_nat.simps digit_char_def)
  note th = all_rows_written_and_returned[OF h1 h2 h3 refl]
  let ?w' = "snd (fetch_and_store_data ''TEST.NS'' ''1mo'' ''local'' None healthy_world)"
  have a: "fst (fetch_and_store_data ''TEST.NS'' ''1mo'' ''local'' None healthy_world)
     = Some \<lparr>cols = Flat [Date, Field Open, Field High, Field Low, Field Close, Field Volume],
             body = [[TS (jan 2), Num 100, Num 110, Num 95, Num 105, Num 1000],
                     [TS (jan 3), Num 105, Num 112, Num 101, Num 111, Num 1200],
                     [TS (jan 4), Num 111, Num 115, Num 108, Num 109, Num 900]]\<rparr>"
    using th[THEN conjunct1] unfolding r by simp
  have b: "trace ?w'
     = [Download ''TEST.NS'' ''1mo'',
        MakeDirs ''stock_data_lake/ticker=TEST.NS'',
        OpenFile ''stock_data_lake/ticker=TEST.NS/date=2024-01-02.csv'',
        WriteFile ''stock_data_lake/ticker=TEST.NS/date=2024-01-02.csv'',
        MakeDirs ''stock_data_lake/ticker=TEST.NS'',
        OpenFile ''stock_data_lake/ticker=TEST.NS/date=2024-01-03.csv'',
        WriteFile ''stock_data_lake/ticker=TEST.NS/date=2024-01-03.csv'',
        MakeDirs ''stock_data_lake/ticker=TEST.NS'',
        OpenFile ''stock_data_lake/ticker=TEST.NS/date=2024-01-04.csv'',
        WriteFile ''stock_data_lake/ticker=TEST.NS/date=2024-01-04.csv'']"
    using th[THEN conjunct2, THEN conjunct1] unfolding e r
    by (simp add: row_events_def p s dirname_def)
  note loc = th[THEN conjunct2, THEN conjunct2, THEN conjunct1, rule_format, OF refl]
  have c: "dom (files ?w')
     = {''stock_data_lake/ticker=TEST.NS/date=2024-01-02.csv'',
        ''stock_data_lake/ticker=TEST.NS/date=2024-01-03.csv'',
        ''stock_data_lake/ticker=TEST.NS/date=2024-01-04.csv''}"
    using loc[THEN conjunct1] unfolding e r by (simp add: p s insert_commute)
  have fd: "file_date (jan n, vs) = strftime_ymd (jan n)" for n and vs :: "int list"
    by (simp add: file_date_def)
  have "\<exists>r'\<in>set (rows example_frame). file_date r' = file_date (jan 3, [105, 112, 101, 111, 1200::int]) \<and>
          files ?w' (local_path ''TEST.NS'' (file_date (jan 3, [105, 112, 101, 111, 1200::int])))
            = Some (partition_lines ''TEST.NS'' (columns example_frame) r')"
    by (rule loc[THEN conjunct2, rule_format]) (simp add: r)
  then have d: "files ?w' ''stock_data_lake/ticker=TEST.NS/date=2024-01-03.csv''
     = Some [[Txt ''Date'', Txt ''Open'', Txt ''High'', Txt ''Low'', Txt ''Close'', Txt ''Volume'', Txt ''Ticker''],
             [TS (jan 3), Num 105, Num 112, Num 101, Num 111, Num 1200, Txt ''TEST.NS'']]"
    unfolding r
    by (simp add: fd s partition_lines_def local_path_def path_join_def join2_def
          LOCAL_DATA_LAKE_FOLDER_def)
  from a b c d show ?thesis by (intro conjI)
qed

end
